theory Spec2Isabelle
  imports Main "HOL-Library.Sublist" "HOL-Library.Char_ord" "HOL-Library.List_Lexorder"
begin

section \<open>The world the Rush command layer acts on\<close>

text \<open>
  The actions of \<^verbatim>\<open>apps/rush/src/actions\<close> are effectful: they test, delete and write
  files, print to the console and throw. The embedding passes an explicit world: a
  filesystem (a partial map from paths to nodes), a clock that stamps every written
  file, the lines printed by \<^verbatim>\<open>console.log\<close> and \<^verbatim>\<open>console.error\<close>, and the process
  environment \<^verbatim>\<open>process.env\<close>. Time passes while the filesystem is changed: \<open>pace w t\<close> is
  the time that a call started at time \<open>t\<close> takes, any amount, none included.
\<close>

type_synonym path = string

datatype node = File (content: string) (mtime: nat) | Folder

record world =
  fs :: "path \<rightharpoonup> node"
  clock :: nat
  pace :: "nat \<Rightarrow> nat"
  console :: "string list"
  errors :: "string list"
  env :: "string \<rightharpoonup> string"

text \<open>A JavaScript \<^verbatim>\<open>Error\<close> value; \<^verbatim>\<open>new Error(msg)\<close> is \<open>Error msg\<close>.\<close>

datatype error = Error (message: string)

text \<open>
  A statement sequence that may throw: \<open>None\<close> is normal completion, \<open>Some e\<close> is the
  exception \<open>e\<close>. The world is returned in both cases, since an exception undoes
  nothing of what was done before it.
\<close>

type_synonym proc = "world \<Rightarrow> error option \<times> world"

definition ok :: proc where
  "ok w = (None, w)"

definition throw :: "error \<Rightarrow> proc" where
  "throw e w = (Some e, w)"

definition lift :: "(world \<Rightarrow> world) \<Rightarrow> proc" where
  "lift f w = (None, f w)"

fun seqs :: "proc list \<Rightarrow> proc" where
  "seqs [] w = (None, w)"
| "seqs (p # ps) w =
     (case p w of
        (Some e, w') \<Rightarrow> (Some e, w')
      | (None, w') \<Rightarrow> seqs ps w')"

definition os_EOL :: string where
  "os_EOL = [CHR 0x0A]"

definition console_log :: "string \<Rightarrow> world \<Rightarrow> world" where
  "console_log s w = w\<lparr>console := console w @ [s]\<rparr>"

definition console_error :: "string \<Rightarrow> world \<Rightarrow> world" where
  "console_error s w = w\<lparr>errors := errors w @ [s]\<rparr>"

subsection \<open>Filesystem primitives (\<^verbatim>\<open>fs-extra\<close>, \<^verbatim>\<open>path\<close>)\<close>

definition takeTime :: "world \<Rightarrow> world" where
  "takeTime w = w\<lparr>clock := clock w + pace w (clock w)\<rparr>"

definition existsSync :: "path \<Rightarrow> world \<Rightarrow> bool" where
  "existsSync p w = (fs w p \<noteq> None)"

definition isFile :: "path \<Rightarrow> world \<Rightarrow> bool" where
  "isFile p w = (case fs w p of Some (File c t) \<Rightarrow> True | _ \<Rightarrow> False)"

text \<open>\<^verbatim>\<open>fsx.unlinkSync\<close> removes a file; on a folder or a missing path it throws.\<close>

definition unlinkSync :: "path \<Rightarrow> proc" where
  "unlinkSync p w =
     (case fs w p of
        Some (File c t) \<Rightarrow> (None, takeTime (w\<lparr>fs := (fs w)(p := None)\<rparr>))
      | Some Folder \<Rightarrow> (Some (Error (''EISDIR: illegal operation on a directory, unlink '' @ p)), w)
      | None \<Rightarrow> (Some (Error (''ENOENT: no such file or directory, unlink '' @ p)), w))"

text \<open>
  \<^verbatim>\<open>fsx.writeFileSync\<close> creates or truncates the file and stamps it with the time of
  the call; on a folder it throws.
\<close>

definition writeFileSync :: "path \<Rightarrow> string \<Rightarrow> proc" where
  "writeFileSync p data w =
     (case fs w p of
        Some Folder \<Rightarrow> (Some (Error (''EISDIR: illegal operation on a directory, open '' @ p)), w)
      | _ \<Rightarrow> (None, takeTime (w\<lparr>fs := (fs w)(p \<mapsto> File data (clock w))\<rparr>)))"

text \<open>
  \<^verbatim>\<open>path.join\<close> on already normalised segments and the POSIX separator; the
  normalisation of \<^verbatim>\<open>..\<close>, \<^verbatim>\<open>.\<close> and doubled separators is not modelled.
\<close>

definition path_join :: "path \<Rightarrow> path \<Rightarrow> path" where
  "path_join a b = (if a = [] then b else a @ ''/'' @ b)"

definition path_delimiter :: string where
  "path_delimiter = '':''"

subsection \<open>Helpers of \<^verbatim>\<open>rush-lib\<close>'s \<^verbatim>\<open>Utilities\<close>\<close>

text \<open>
  Modelled from the spec: \<^verbatim>\<open>Utilities.deleteFile\<close> is not among the sources. Its call
  site documents it as ``delete the flag file if it exists'': a file at the path is
  removed, anything else is left alone, and nothing is thrown.
\<close>

definition deleteFile :: "path \<Rightarrow> world \<Rightarrow> world" where
  "deleteFile p w = (if isFile p w then w\<lparr>fs := (fs w)(p := None)\<rparr> else w)"

text \<open>
  Modelled from the spec: \<^verbatim>\<open>Utilities.dangerouslyDeletePath\<close> is not among the sources.
  The spec has unlinking ``remove every link entry'': the folder at the path goes, with
  everything beneath it.
\<close>

definition beneath :: "path \<Rightarrow> path \<Rightarrow> bool" where
  "beneath p q = (q = p \<or> prefix (p @ ''/'') q)"

definition dangerouslyDeletePath :: "path \<Rightarrow> world \<Rightarrow> world" where
  "dangerouslyDeletePath p w = w\<lparr>fs := (\<lambda>q. if beneath p q then None else fs w q)\<rparr>"

section \<open>The Rush configuration\<close>

record rushProject =
  projectFolder :: path

record rushConfiguration =
  projects :: "rushProject list"
  rushLinkJsonFilename :: path
  committedShrinkwrapFilename :: path
  tempShrinkwrapFilename :: path
  npmToolFilename :: path
  commonTempFolder :: path

section \<open>\<^verbatim>\<open>UnlinkAction.onExecute\<close>\<close>

definition localModuleFolder :: "rushProject \<Rightarrow> path" where
  "localModuleFolder rushProject = path_join (projectFolder rushProject) ''node_modules''"

text \<open>The \<^verbatim>\<open>for\<close> loop over the projects, with the flag \<^verbatim>\<open>didAnything\<close> it maintains.\<close>

fun purgeProjects :: "rushProject list \<Rightarrow> bool \<Rightarrow> world \<Rightarrow> bool \<times> world" where
  "purgeProjects [] didAnything w = (didAnything, w)"
| "purgeProjects (rushProject # rest) didAnything w =
     (if existsSync (localModuleFolder rushProject) w
      then purgeProjects rest True
             (dangerouslyDeletePath (localModuleFolder rushProject)
               (console_log (''Purging '' @ localModuleFolder rushProject) w))
      else purgeProjects rest didAnything w)"

definition UnlinkAction_onExecute :: "rushConfiguration \<Rightarrow> world \<Rightarrow> world" where
  "UnlinkAction_onExecute cfg w =
     (let w1 = console_log (''Starting \"rush unlink\"'' @ os_EOL) w;
          w2 = deleteFile (rushLinkJsonFilename cfg) w1;
          (didAnything, w3) = purgeProjects (projects cfg) False w2
      in if \<not> didAnything
         then console_log ''Nothing to do.'' w3
         else console_log (os_EOL @ ''Done.'') w3)"

section \<open>\<^verbatim>\<open>GenerateAction.onExecute\<close>\<close>

text \<open>
  \<^verbatim>\<open>InstallManager\<close>, \<^verbatim>\<open>LinkManager\<close>, \<^verbatim>\<open>ApprovedPackagesChecker\<close>, \<^verbatim>\<open>Stopwatch\<close> and
  \<^verbatim>\<open>Utilities.executeCommand\<close> are not among the sources: \<^verbatim>\<open>onExecute\<close> is modelled over
  arbitrary implementations of them, each a procedure on the world that may throw.
  \<^verbatim>\<open>InstallType\<close> is given the two members that \<^verbatim>\<open>onExecute\<close> uses.
\<close>

datatype installType = Normal | ForceClean

record installManager =
  ensureLocalNpmTool :: "bool \<Rightarrow> proc"
  createTempModules :: proc
  installCommonModules :: "installType \<Rightarrow> proc"
  pushConfigurationNpmArgs :: "string list \<Rightarrow> string list"
  commonNodeModulesMarkerFilename :: path

record collaborators =
  rewriteConfigFiles :: proc
  executeCommand :: "path \<Rightarrow> string list \<Rightarrow> path \<Rightarrow> proc"
  createSymlinksForProjects :: "bool \<Rightarrow> proc"
  stopwatchToString :: "nat \<Rightarrow> nat \<Rightarrow> string"

text \<open>The \<^verbatim>\<open>colors\<close> package wraps a text in ANSI escape sequences.\<close>

definition ansi :: "string \<Rightarrow> string \<Rightarrow> string \<Rightarrow> string" where
  "ansi on off s = CHR 0x1B # ''['' @ on @ ''m'' @ s @ CHR 0x1B # ''['' @ off @ ''m''"

definition colors_green :: "string \<Rightarrow> string" where
  "colors_green = ansi ''32'' ''39''"

definition colors_red :: "string \<Rightarrow> string" where
  "colors_red = ansi ''31'' ''39''"

definition colors_bold :: "string \<Rightarrow> string" where
  "colors_bold = ansi ''1'' ''22''"

text \<open>
  Modelled from the spec: \<^verbatim>\<open>InstallManager.syncFile\<close> is not among the sources. The spec
  has it copy the staging file to the committed location, or delete the committed file
  when there is nothing to copy; the call site says ``Copy (or delete)''. The copy is a
  fresh write of the source's content, stamped with the current time.
\<close>

definition syncFile :: "path \<Rightarrow> path \<Rightarrow> proc" where
  "syncFile sourcePath targetPath w =
     (case fs w sourcePath of
        Some (File c t) \<Rightarrow> writeFileSync targetPath c w
      | Some Folder \<Rightarrow> (Some (Error (''EISDIR: illegal operation on a directory, read '' @ sourcePath)), w)
      | None \<Rightarrow> if existsSync targetPath w then unlinkSync targetPath w else ok w)"

text \<open>Lines 60 to 68: governance rewrite, local tool, synthesized manifest.\<close>

definition GenerateAction_prepare :: "installManager \<Rightarrow> collaborators \<Rightarrow> proc" where
  "GenerateAction_prepare im co =
     seqs [rewriteConfigFiles co,
           lift (console_log (''Starting \"rush generate\"'' @ os_EOL)),
           ensureLocalNpmTool im False,
           createTempModules im]"

text \<open>Lines 70 to 77: ``Delete both copies of the shrinkwrap file''.\<close>

definition deleteShrinkwrapFiles :: "rushConfiguration \<Rightarrow> proc" where
  "deleteShrinkwrapFiles cfg =
     seqs [\<lambda>w. if existsSync (committedShrinkwrapFilename cfg) w
                then seqs [lift (console_log (os_EOL @ ''Deleting '' @ committedShrinkwrapFilename cfg)),
                           unlinkSync (committedShrinkwrapFilename cfg)] w
                else ok w,
           \<lambda>w. if existsSync (tempShrinkwrapFilename cfg) w
                then unlinkSync (tempShrinkwrapFilename cfg) w
                else ok w]"

text \<open>Lines 80 to 87: the \<^verbatim>\<open>--lazy\<close> branch.\<close>

definition lazyInstall :: "installManager \<Rightarrow> proc" where
  "lazyInstall im =
     seqs [lift (console_log (colors_green (os_EOL @ ''Rush is running in \"--lazy\" mode. '' @
             ''You will need to run a normal \"rush generate\" before committing.''))),
           installCommonModules im Normal,
           lift (console_log (os_EOL @ colors_bold ''(Skipping \"npm shrinkwrap\")'' @ os_EOL))]"

text \<open>Lines 89 to 101: clean install, \<^verbatim>\<open>npm shrinkwrap\<close>, copy to the committed location.\<close>

definition shrinkwrapCommand :: "rushConfiguration \<Rightarrow> installManager \<Rightarrow> collaborators \<Rightarrow> proc" where
  "shrinkwrapCommand cfg im co =
     executeCommand co (npmToolFilename cfg) (pushConfigurationNpmArgs im [''shrinkwrap''])
       (commonTempFolder cfg)"

definition cleanInstall :: "rushConfiguration \<Rightarrow> installManager \<Rightarrow> collaborators \<Rightarrow> proc" where
  "cleanInstall cfg im co =
     seqs [installCommonModules im ForceClean,
           lift (console_log (os_EOL @ colors_bold ''Running \"npm shrinkwrap\"...'')),
           shrinkwrapCommand cfg im co,
           lift (console_log (''\"npm shrinkwrap\" completed'' @ os_EOL)),
           syncFile (tempShrinkwrapFilename cfg) (committedShrinkwrapFilename cfg)]"

text \<open>Lines 108 to 113: bump the flag file's timestamp, or fail the sanity check.\<close>

definition refreshInstallFlag :: "installManager \<Rightarrow> proc" where
  "refreshInstallFlag im w =
     (if existsSync (commonNodeModulesMarkerFilename im) w
      then writeFileSync (commonNodeModulesMarkerFilename im) [] w
      else throw (Error ''The install flag file is missing'') w)"

text \<open>
  Lines 57 to 117, everything before the link step. The stopwatch is started on entry
  and read for the closing message.
\<close>

definition GenerateAction_install ::
  "rushConfiguration \<Rightarrow> installManager \<Rightarrow> collaborators \<Rightarrow> bool \<Rightarrow> proc" where
  "GenerateAction_install cfg im co isLazy w =
     seqs [GenerateAction_prepare im co,
           deleteShrinkwrapFiles cfg,
           if isLazy then lazyInstall im
           else seqs [cleanInstall cfg im co, refreshInstallFlag im],
           \<lambda>w'. ok (console_log (os_EOL @ colors_green (''Rush generate finished successfully. ('' @
                   stopwatchToString co (clock w) (clock w') @ '')'')) w')] w"

text \<open>
  What a command's \<^verbatim>\<open>onExecute\<close> hands back to the parser: it returns, it throws, or it
  returns with a promise given to \<^verbatim>\<open>catchSyncErrors\<close> that is later rejected.
\<close>

datatype outcome = Returned | Threw error | Rejected error

definition GenerateAction_onExecute ::
  "rushConfiguration \<Rightarrow> installManager \<Rightarrow> collaborators \<Rightarrow> bool \<Rightarrow> bool \<Rightarrow> world \<Rightarrow> outcome \<times> world" where
  "GenerateAction_onExecute cfg im co isLazy noLink w =
     (case GenerateAction_install cfg im co isLazy w of
        (Some e, w') \<Rightarrow> (Threw e, w')
      | (None, w') \<Rightarrow>
          if \<not> noLink
          then (case createSymlinksForProjects co True w' of
                  (Some e, w'') \<Rightarrow> (Rejected e, w'')
                | (None, w'') \<Rightarrow> (Returned, w''))
          else (Returned, console_log (os_EOL @ ''Next you should probably run: \"rush link\"'') w'))"

text \<open>A world is timely when no file carries a modification time in the future.\<close>

definition timely :: "world \<Rightarrow> bool" where
  "timely w = (\<forall>p c t. fs w p = Some (File c t) \<longrightarrow> t \<le> clock w)"

definition keepsTimely :: "proc \<Rightarrow> bool" where
  "keepsTimely h = (\<forall>w. timely w \<longrightarrow> timely (snd (h w)))"

text \<open>A helper leaves a path absent when it never creates anything there.\<close>

definition leavesAbsent :: "path \<Rightarrow> proc \<Rightarrow> bool" where
  "leavesAbsent p h = (\<forall>w. \<not> existsSync p w \<longrightarrow> \<not> existsSync p (snd (h w)))"

section \<open>\<^verbatim>\<open>RushCommandLineParser\<close>\<close>

text \<open>
  The parser's state that its methods read: the configuration, the \<^verbatim>\<open>--debug\<close> flag,
  \<^verbatim>\<open>telemetry.flush\<close> (class \<^verbatim>\<open>Telemetry\<close> is not among the sources) and the soft
  word wrap of the \<^verbatim>\<open>wordwrap\<close> package, already applied to its margins.
\<close>

record rushCommandLineParser =
  rushConfiguration :: rushConfiguration
  debugParameter :: bool
  telemetry_flush :: proc
  wrap :: "string \<Rightarrow> string"

text \<open>How the process stands: running, ended by \<^verbatim>\<open>process.exit\<close>, or left by an exception
  that nothing caught.\<close>

datatype status = Running | Exited nat | Uncaught error

definition isSpace :: "char \<Rightarrow> bool" where
  "isSpace c = (c \<in> {CHR '' '', CHR 0x09, CHR 0x0A, CHR 0x0B, CHR 0x0C, CHR 0x0D})"

definition trim :: "string \<Rightarrow> string" where
  "trim s = rev (dropWhile isSpace (rev (dropWhile isSpace s)))"

text \<open>\<^verbatim>\<open>error.stack\<close> starts with the error's name and message; the frames are not modelled.\<close>

definition stack :: "error \<Rightarrow> string" where
  "stack e = ''Error: '' @ message e"

text \<open>\<^verbatim>\<open>exitWithError\<close>: \<^verbatim>\<open>try { flush } finally { process.exit(1) }\<close>.\<close>

definition exitWithError :: "rushCommandLineParser \<Rightarrow> world \<Rightarrow> status \<times> world" where
  "exitWithError parser w =
     (case telemetry_flush parser w of
        (None, w') \<Rightarrow> (Exited 1, w')
      | (Some e, w') \<Rightarrow> (Exited 1, w'))"

definition reportLine :: "rushCommandLineParser \<Rightarrow> error \<Rightarrow> string" where
  "reportLine parser e =
     (if debugParameter parser
      then os_EOL @ stack e
      else os_EOL @ colors_red (''ERROR: '' @ trim (wrap parser (message e))))"

definition exitAndReportError :: "rushCommandLineParser \<Rightarrow> error \<Rightarrow> world \<Rightarrow> status \<times> world" where
  "exitAndReportError parser e w = exitWithError parser (console_error (reportLine parser e) w)"




text \<open>\<^verbatim>\<open>_ensureEnvironment\<close>; an unset \<^verbatim>\<open>PATH\<close> reads as \<^verbatim>\<open>undefined\<close> and is concatenated
  as that word.\<close>

definition ensureEnvironment :: "rushConfiguration \<Rightarrow> world \<Rightarrow> world" where
  "ensureEnvironment cfg w =
     (let environmentPath = (case env w ''PATH'' of None \<Rightarrow> ''undefined'' | Some v \<Rightarrow> v);
          environmentPath' =
            path_join (path_join (commonTempFolder cfg) ''node_modules'') ''.bin'' @
            path_delimiter @ environmentPath
      in w\<lparr>env := (env w)(''PATH'' \<mapsto> environmentPath')\<rparr>)"

section \<open>Concrete repositories and collaborators\<close>

text \<open>A small repository: two projects, the first of them linked, and a committed lock file.\<close>

definition exampleConfiguration :: rushConfiguration where
  "exampleConfiguration =
     \<lparr>projects = [\<lparr>projectFolder = ''app''\<rparr>, \<lparr>projectFolder = ''lib''\<rparr>],
      rushLinkJsonFilename = ''common/rush-link.json'',
      committedShrinkwrapFilename = ''common/npm-shrinkwrap.json'',
      tempShrinkwrapFilename = ''common/temp/npm-shrinkwrap.json'',
      npmToolFilename = ''npm'',
      commonTempFolder = ''common/temp''\<rparr>"

definition linkedRepo :: world where
  "linkedRepo =
     \<lparr>fs = map_of
        [(''app/node_modules'', Folder),
         (''app/node_modules/lib'', Folder),
         (''common/rush-link.json'', File ''{}'' 3),
         (''common/npm-shrinkwrap.json'', File ''v1'' 1),
         (''common/temp/last-install.flag'', File [] 2)],
      clock = 5, pace = (\<lambda>t. 1), console = [], errors = [],
      env = map_of [(''PATH'', ''/usr/bin''), (''HOME'', ''/root'')]\<rparr>"

text \<open>The same repository with no project linked, but the link flag file still there.\<close>

definition flagOnlyRepo :: world where
  "flagOnlyRepo =
     \<lparr>fs = map_of [(''common/rush-link.json'', File ''{}'' 3)],
      clock = 5, pace = (\<lambda>t. 1), console = [], errors = [],
      env = map_of [(''PATH'', ''/usr/bin'')]\<rparr>"

definition elapse :: "nat \<Rightarrow> world \<Rightarrow> world" where
  "elapse n w = w\<lparr>clock := clock w + n\<rparr>"

text \<open>
  An install manager whose install takes ten ticks and leaves the flag file, and whose
  synthesized manifest is \<^verbatim>\<open>common/temp/package.json\<close>; a package manager whose
  \<^verbatim>\<open>shrinkwrap\<close> command writes the staging lock file.
\<close>

definition exampleInstallManager :: installManager where
  "exampleInstallManager =
     \<lparr>ensureLocalNpmTool = (\<lambda>b. ok),
      createTempModules = writeFileSync ''common/temp/package.json'' ''{}'',
      installCommonModules =
        (\<lambda>t. seqs [lift (elapse 10), writeFileSync ''common/temp/last-install.flag'' []]),
      pushConfigurationNpmArgs = (\<lambda>args. args),
      commonNodeModulesMarkerFilename = ''common/temp/last-install.flag''\<rparr>"

definition exampleCollaborators :: collaborators where
  "exampleCollaborators =
     \<lparr>rewriteConfigFiles = ok,
      executeCommand =
        (\<lambda>tool args cwd. seqs [lift (elapse 3), writeFileSync (path_join cwd ''npm-shrinkwrap.json'') ''v2'']),
      createSymlinksForProjects = (\<lambda>force. ok),
      stopwatchToString = (\<lambda>started stopped. ''13 ticks'')\<rparr>"

text \<open>An install manager whose install fails, and one whose install leaves no flag file.\<close>

definition failingInstallManager :: installManager where
  "failingInstallManager =
     exampleInstallManager\<lparr>installCommonModules := (\<lambda>t. throw (Error ''npm install failed''))\<rparr>"

definition forgetfulInstallManager :: installManager where
  "forgetfulInstallManager =
     exampleInstallManager\<lparr>installCommonModules :=
        (\<lambda>t w. if existsSync ''common/temp/last-install.flag'' w
               then unlinkSync ''common/temp/last-install.flag'' w else ok w)\<rparr>"

text \<open>Parsers with and without \<^verbatim>\<open>--debug\<close>, one with a telemetry flush that throws, and a
  command that throws.\<close>

definition exampleParser :: rushCommandLineParser where
  "exampleParser =
     \<lparr>rushConfiguration = exampleConfiguration, debugParameter = False,
      telemetry_flush = ok, wrap = (\<lambda>s. s)\<rparr>"


definition brokenTelemetryParser :: rushCommandLineParser where
  "brokenTelemetryParser = exampleParser\<lparr>telemetry_flush := throw (Error ''telemetry is undefined'')\<rparr>"



text \<open>
  A repository whose synthesized manifest carries a time in the future, and an install
  manager that finds the manifest up to date and leaves it as it is.
\<close>

definition skewedRepo :: world where
  "skewedRepo =
     \<lparr>fs = map_of
        [(''common/temp/package.json'', File ''{}'' 100),
         (''common/npm-shrinkwrap.json'', File ''v1'' 1)],
      clock = 5, pace = (\<lambda>t. 1), console = [], errors = [],
      env = map_of [(''PATH'', ''/usr/bin'')]\<rparr>"

definition idleInstallManager :: installManager where
  "idleInstallManager = exampleInstallManager\<lparr>createTempModules := ok\<rparr>"

section \<open>Approved packages\<close>

text \<open>
  Modelled from the spec: \<^verbatim>\<open>ApprovedPackagesChecker.rewriteConfigFiles\<close> is not among the
  sources; only its call in \<^verbatim>\<open>GenerateAction.onExecute\<close> and the schema of the file it
  writes are. The spec has the rewrite a pure function of the existing list and the
  observed usage: a package that is used and not listed gets an entry with the review
  categories of the projects that use it, a listed one is extended by the categories it
  lacks, nothing is removed, and the result is sorted by name and free of duplicates.
  An entry follows the schema's \<^verbatim>\<open>packageInfo\<close>; its categories, a set in the spec, are kept
  as a strictly sorted list, so that the list of entries determines the bytes written.
  An observed usage is the name of an external package with the review category of a
  project that depends on it.
\<close>

record packageInfo =
  name :: string
  allowedCategories :: "string list"

type_synonym observedUsage = "(string \<times> string) list"

text \<open>Adding a category to a sorted list of categories.\<close>

fun addCategory :: "string \<Rightarrow> string list \<Rightarrow> string list" where
  "addCategory c [] = [c]"
| "addCategory c (d # ds) =
     (if c = d then d # ds
      else if c < d then c # d # ds
      else d # addCategory c ds)"

text \<open>Approving a package for some categories, in a list sorted by name.\<close>

fun approve :: "string \<Rightarrow> string list \<Rightarrow> packageInfo list \<Rightarrow> packageInfo list" where
  "approve n cs [] = [\<lparr>name = n, allowedCategories = fold addCategory cs []\<rparr>]"
| "approve n cs (p # ps) =
     (if n = name p then p\<lparr>allowedCategories := fold addCategory cs (allowedCategories p)\<rparr> # ps
      else if n < name p then \<lparr>name = n, allowedCategories = fold addCategory cs []\<rparr> # p # ps
      else p # approve n cs ps)"

text \<open>The existing list is brought into canonical form, then every observed usage is approved.\<close>

definition rewrite :: "packageInfo list \<Rightarrow> observedUsage \<Rightarrow> packageInfo list" where
  "rewrite existingList observed =
     fold (\<lambda>(n, c). approve n [c]) observed
       (fold (\<lambda>p. approve (name p) (allowedCategories p)) existingList [])"

definition canonical :: "packageInfo list \<Rightarrow> bool" where
  "canonical ps = (sorted_wrt (<) (map name ps) \<and> list_all (\<lambda>p. sorted_wrt (<) (allowedCategories p)) ps)"

definition covers :: "packageInfo list \<Rightarrow> string \<Rightarrow> string list \<Rightarrow> bool" where
  "covers ps n cs = list_ex (\<lambda>p. name p = n \<and> set cs \<subseteq> set (allowedCategories p)) ps"

definition exampleApproved :: "packageInfo list" where
  "exampleApproved =
     [\<lparr>name = ''lodash'', allowedCategories = [''tools'', ''libraries'']\<rparr>,
      \<lparr>name = ''colors'', allowedCategories = []\<rparr>]"

definition exampleUsage :: observedUsage where
  "exampleUsage = [(''lodash'', ''prototypes''), (''argparse'', ''tools''), (''argparse'', ''libraries'')]"

section \<open>Basic facts about the primitives\<close>

lemma lift_simp [simp]: "lift f w = (None, f w)"
  by (simp add: lift_def)

lemma ok_simp [simp]: "ok w = (None, w)"
  by (simp add: ok_def)

lemma throw_simp [simp]: "throw e w = (Some e, w)"
  by (simp add: throw_def)

lemma seqs_single: "seqs [p] w = p w"
  by (cases "p w") (auto split: option.splits)

lemma seqs_lift: "seqs (lift f # ps) w = seqs ps (f w)"
  by simp

lemma seqs_NoneE:
  assumes "seqs (p # ps) w = (None, w')"
  obtains w1 where "p w = (None, w1)" and "seqs ps w1 = (None, w')"
  using assms by (cases "p w") (auto split: option.splits)

lemma fs_console_log [simp]: "fs (console_log s w) = fs w"
  by (simp add: console_log_def)

lemma clock_console_log [simp]: "clock (console_log s w) = clock w"
  by (simp add: console_log_def)

lemma env_console_log [simp]: "env (console_log s w) = env w"
  by (simp add: console_log_def)

lemma existsSync_console_log [simp]: "existsSync p (console_log s w) = existsSync p w"
  by (simp add: existsSync_def)

lemma isFile_console_log [simp]: "isFile p (console_log s w) = isFile p w"
  by (simp add: isFile_def)

lemma last_console_log [simp]: "last (console (console_log s w)) = s"
  by (simp add: console_log_def)

lemma fs_takeTime [simp]: "fs (takeTime w) = fs w"
  by (simp add: takeTime_def)

lemma env_takeTime [simp]: "env (takeTime w) = env w"
  by (simp add: takeTime_def)

lemma existsSync_takeTime [simp]: "existsSync p (takeTime w) = existsSync p w"
  by (simp add: existsSync_def)

lemma isFile_takeTime [simp]: "isFile p (takeTime w) = isFile p w"
  by (simp add: isFile_def)

lemma clock_takeTime: "clock (takeTime w) = clock w + pace w (clock w)"
  by (simp add: takeTime_def)

lemma unlinkSync_None:
  "unlinkSync p w = (None, w') \<Longrightarrow> w' = takeTime (w\<lparr>fs := (fs w)(p := None)\<rparr>)"
  by (auto simp: unlinkSync_def split: option.splits node.splits)

lemma writeFileSync_None:
  "writeFileSync p d w = (None, w') \<Longrightarrow>
   w' = takeTime (w\<lparr>fs := (fs w)(p \<mapsto> File d (clock w))\<rparr>)"
  by (auto simp: writeFileSync_def split: option.splits node.splits)


section \<open>Unlinking\<close>

lemma fs_dangerouslyDeletePath:
  "fs (dangerouslyDeletePath p w) q = (if beneath p q then None else fs w q)"
  by (simp add: dangerouslyDeletePath_def)

lemma purgeProjects_shrinks:
  "fs (snd (purgeProjects ps d w)) q = Some n \<Longrightarrow> fs w q = Some n"
proof (induction ps arbitrary: d w)
  case Nil
  then show ?case by simp
next
  case (Cons p ps)
  show ?case
  proof (cases "existsSync (localModuleFolder p) w")
    case True
    with Cons.prems have "fs (snd (purgeProjects ps True
        (dangerouslyDeletePath (localModuleFolder p)
          (console_log (''Purging '' @ localModuleFolder p) w)))) q = Some n"
      by simp
    from Cons.IH [OF this] show ?thesis
      by (simp add: fs_dangerouslyDeletePath split: if_splits)
  next
    case False
    with Cons.prems Cons.IH show ?thesis by simp
  qed
qed

lemma purgeProjects_keeps_absent:
  "\<not> existsSync q w \<Longrightarrow> \<not> existsSync q (snd (purgeProjects ps d w))"
  using purgeProjects_shrinks [of ps d w q] by (cases "fs (snd (purgeProjects ps d w)) q") (auto simp: existsSync_def)

lemma purgeProjects_removes:
  "p \<in> set ps \<Longrightarrow> \<not> existsSync (localModuleFolder p) (snd (purgeProjects ps d w))"
proof (induction ps arbitrary: d w)
  case Nil
  then show ?case by simp
next
  case (Cons a ps)
  show ?case
  proof (cases "p = a")
    case True
    show ?thesis
    proof (cases "existsSync (localModuleFolder a) w")
      case ex: True
      have "\<not> existsSync (localModuleFolder a) (dangerouslyDeletePath (localModuleFolder a)
          (console_log (''Purging '' @ localModuleFolder a) w))"
        by (simp add: existsSync_def fs_dangerouslyDeletePath beneath_def)
      then show ?thesis using ex True by (simp add: purgeProjects_keeps_absent)
    next
      case False
      then show ?thesis using True by (simp add: purgeProjects_keeps_absent)
    qed
  next
    case False
    with Cons.prems have "p \<in> set ps" by simp
    then show ?thesis using Cons.IH by simp
  qed
qed

lemma purgeProjects_nothing:
  "\<forall>p\<in>set ps. \<not> existsSync (localModuleFolder p) w \<Longrightarrow> purgeProjects ps d w = (d, w)"
  by (induction ps arbitrary: d w) auto

lemma isFile_purge: "\<not> isFile q w \<Longrightarrow> \<not> isFile q (snd (purgeProjects ps d w))"
  using purgeProjects_shrinks [of ps d w q] by (auto simp: isFile_def split: option.splits node.splits)

lemma not_isFile_deleteFile: "\<not> isFile p (deleteFile p w)"
  by (simp add: deleteFile_def isFile_def)

lemma fs_unlink:
  "fs (UnlinkAction_onExecute cfg w) =
   fs (snd (purgeProjects (projects cfg) False (deleteFile (rushLinkJsonFilename cfg)
     (console_log (''Starting \"rush unlink\"'' @ os_EOL) w))))"
  by (simp add: UnlinkAction_onExecute_def Let_def split: prod.splits)

lemma deleteFile_idle: "\<not> isFile p w \<Longrightarrow> deleteFile p w = w"
  by (simp add: deleteFile_def)

lemma fs_deleteFile_console_log [simp]: "fs (deleteFile p (console_log s w)) = fs (deleteFile p w)"
  by (simp add: deleteFile_def)

lemma existsSync_deleteFile: "\<not> existsSync q w \<Longrightarrow> \<not> existsSync q (deleteFile p w)"
  by (simp add: deleteFile_def existsSync_def)

lemma unlink_nothing:
  assumes "\<forall>p\<in>set (projects cfg). \<not> existsSync (localModuleFolder p) w"
  shows "UnlinkAction_onExecute cfg w =
    console_log ''Nothing to do.''
      (deleteFile (rushLinkJsonFilename cfg) (console_log (''Starting \"rush unlink\"'' @ os_EOL) w))"
proof -
  let ?w2 = "deleteFile (rushLinkJsonFilename cfg) (console_log (''Starting \"rush unlink\"'' @ os_EOL) w)"
  have "\<forall>p\<in>set (projects cfg). \<not> existsSync (localModuleFolder p) ?w2"
    using assms by (simp add: existsSync_deleteFile)
  then have "purgeProjects (projects cfg) False ?w2 = (False, ?w2)"
    by (rule purgeProjects_nothing)
  then show ?thesis by (simp add: UnlinkAction_onExecute_def)
qed

lemma unlink_leaves_nothing:
  "\<not> isFile (rushLinkJsonFilename cfg) (UnlinkAction_onExecute cfg w) \<and>
   (\<forall>p\<in>set (projects cfg). \<not> existsSync (localModuleFolder p) (UnlinkAction_onExecute cfg w))"
proof -
  let ?w2 = "deleteFile (rushLinkJsonFilename cfg) (console_log (''Starting \"rush unlink\"'' @ os_EOL) w)"
  have a: "\<not> isFile (rushLinkJsonFilename cfg) (snd (purgeProjects (projects cfg) False ?w2))"
    by (rule isFile_purge) (rule not_isFile_deleteFile)
  have b: "\<forall>p\<in>set (projects cfg). \<not> existsSync (localModuleFolder p) (snd (purgeProjects (projects cfg) False ?w2))"
    by (simp add: purgeProjects_removes)
  show ?thesis using a b by (simp add: isFile_def existsSync_def fs_unlink)
qed

text \<open>
  C8: for every repository state, \<^verbatim>\<open>unlink\<close> removes each project's \<^verbatim>\<open>node_modules\<close> folder
  and the \<^verbatim>\<open>rush-link\<close> flag file: after it has run, no file stands at the flag's path (so
  the next \<^verbatim>\<open>rush link\<close> finds no flag and links in full) and no project has a
  \<^verbatim>\<open>node_modules\<close> folder.
\<close>

theorem unlink_removes_links_and_flag:
  "\<not> isFile (rushLinkJsonFilename cfg) (UnlinkAction_onExecute cfg w) \<and>
   (\<forall>p\<in>set (projects cfg). \<not> existsSync (localModuleFolder p) (UnlinkAction_onExecute cfg w))"
  by (rule unlink_leaves_nothing)

theorem unlink_removes_links_and_flag_witness:
  "isFile ''common/rush-link.json'' linkedRepo \<and>
   existsSync ''app/node_modules'' linkedRepo \<and>
   \<not> isFile ''common/rush-link.json'' (UnlinkAction_onExecute exampleConfiguration linkedRepo) \<and>
   \<not> existsSync ''app/node_modules'' (UnlinkAction_onExecute exampleConfiguration linkedRepo) \<and>
   \<not> existsSync ''lib/node_modules'' (UnlinkAction_onExecute exampleConfiguration linkedRepo)"
proof -
  have before: "isFile ''common/rush-link.json'' linkedRepo \<and> existsSync ''app/node_modules'' linkedRepo"
    by (simp add: isFile_def existsSync_def linkedRepo_def)
  have folders: "localModuleFolder \<lparr>projectFolder = ''app''\<rparr> = ''app/node_modules'' \<and>
      localModuleFolder \<lparr>projectFolder = ''lib''\<rparr> = ''lib/node_modules''"
    by (simp add: localModuleFolder_def path_join_def)
  show ?thesis
    using unlink_removes_links_and_flag [of exampleConfiguration linkedRepo] before folders
    by (simp add: exampleConfiguration_def)
qed

text \<open>
  C4, as the code has it: on a repository state in which no project has a \<^verbatim>\<open>node_modules\<close>
  folder, \<^verbatim>\<open>unlink\<close> reports ``Nothing to do.'' and changes nothing in the filesystem but
  the \<^verbatim>\<open>rush-link\<close> flag file, which it deletes when the file is there; with no flag file
  either, the filesystem is left as it was. A second \<^verbatim>\<open>unlink\<close> right after a first
  reports ``Nothing to do.'' and changes nothing.
\<close>

theorem unlink_idempotent:
  "((\<forall>p\<in>set (projects cfg). \<not> existsSync (localModuleFolder p) w) \<longrightarrow>
      last (console (UnlinkAction_onExecute cfg w)) = ''Nothing to do.'' \<and>
      fs (UnlinkAction_onExecute cfg w) = fs (deleteFile (rushLinkJsonFilename cfg) w) \<and>
      (\<not> isFile (rushLinkJsonFilename cfg) w \<longrightarrow> fs (UnlinkAction_onExecute cfg w) = fs w)) \<and>
   last (console (UnlinkAction_onExecute cfg (UnlinkAction_onExecute cfg w))) = ''Nothing to do.'' \<and>
   fs (UnlinkAction_onExecute cfg (UnlinkAction_onExecute cfg w)) = fs (UnlinkAction_onExecute cfg w)"
proof -
  have first: "last (console (UnlinkAction_onExecute cfg v)) = ''Nothing to do.'' \<and>
      fs (UnlinkAction_onExecute cfg v) = fs (deleteFile (rushLinkJsonFilename cfg) v) \<and>
      (\<not> isFile (rushLinkJsonFilename cfg) v \<longrightarrow> fs (UnlinkAction_onExecute cfg v) = fs v)"
    if "\<forall>p\<in>set (projects cfg). \<not> existsSync (localModuleFolder p) v" for v
    by (simp add: unlink_nothing [OF that] deleteFile_idle)
  let ?v = "UnlinkAction_onExecute cfg w"
  have clean: "\<forall>p\<in>set (projects cfg). \<not> existsSync (localModuleFolder p) ?v"
    and noflag: "\<not> isFile (rushLinkJsonFilename cfg) ?v"
    using unlink_leaves_nothing [of cfg w] by simp_all
  have second: "last (console (UnlinkAction_onExecute cfg ?v)) = ''Nothing to do.'' \<and>
      fs (UnlinkAction_onExecute cfg ?v) = fs ?v"
    using first [OF clean] noflag by blast
  show ?thesis using first second by blast
qed

theorem unlink_idempotent_witness:
  "\<not> existsSync ''app/node_modules'' flagOnlyRepo \<and>
   \<not> existsSync ''lib/node_modules'' flagOnlyRepo \<and>
   last (console (UnlinkAction_onExecute exampleConfiguration flagOnlyRepo)) = ''Nothing to do.'' \<and>
   fs (UnlinkAction_onExecute exampleConfiguration flagOnlyRepo) =
     fs (deleteFile ''common/rush-link.json'' flagOnlyRepo) \<and>
   fs (UnlinkAction_onExecute exampleConfiguration (UnlinkAction_onExecute exampleConfiguration linkedRepo)) =
     fs (UnlinkAction_onExecute exampleConfiguration linkedRepo)"
proof -
  have none: "\<not> existsSync ''app/node_modules'' flagOnlyRepo \<and> \<not> existsSync ''lib/node_modules'' flagOnlyRepo"
    by (simp add: existsSync_def flagOnlyRepo_def)
  then have hyp: "\<forall>p\<in>set (projects exampleConfiguration). \<not> existsSync (localModuleFolder p) flagOnlyRepo"
    by (simp add: exampleConfiguration_def localModuleFolder_def path_join_def)
  show ?thesis
    using unlink_idempotent [of exampleConfiguration flagOnlyRepo] hyp none
      unlink_idempotent [of exampleConfiguration linkedRepo]
    by (simp add: exampleConfiguration_def)
qed

text \<open>
  C4 as stated fails where no project is linked but the flag file of an earlier
  \<^verbatim>\<open>rush link\<close> is still there: \<^verbatim>\<open>unlink\<close> reports ``Nothing to do.'' and yet deletes
  the flag file.
\<close>

theorem unlink_no_mutation_counterexample:
  "projects exampleConfiguration = [\<lparr>projectFolder = ''app''\<rparr>, \<lparr>projectFolder = ''lib''\<rparr>] \<and>
   \<not> existsSync (localModuleFolder \<lparr>projectFolder = ''app''\<rparr>) flagOnlyRepo \<and>
   \<not> existsSync (localModuleFolder \<lparr>projectFolder = ''lib''\<rparr>) flagOnlyRepo \<and>
   last (console (UnlinkAction_onExecute exampleConfiguration flagOnlyRepo)) = ''Nothing to do.'' \<and>
   fs flagOnlyRepo ''common/rush-link.json'' = Some (File ''{}'' 3) \<and>
   fs (UnlinkAction_onExecute exampleConfiguration flagOnlyRepo) ''common/rush-link.json'' = None"
  by (simp add: exampleConfiguration_def flagOnlyRepo_def UnlinkAction_onExecute_def
      localModuleFolder_def path_join_def existsSync_def deleteFile_def isFile_def)

section \<open>Generating the shrinkwrap file\<close>

lemma deleteShrinkwrapFiles_absent:
  assumes "deleteShrinkwrapFiles cfg w = (None, w')"
  shows "\<not> existsSync (committedShrinkwrapFilename cfg) w' \<and> \<not> existsSync (tempShrinkwrapFilename cfg) w'"
  using assms
  by (auto simp: deleteShrinkwrapFiles_def existsSync_def console_log_def
      split: if_splits option.splits prod.splits dest!: unlinkSync_None)

lemma install_unfold:
  "GenerateAction_prepare im co w = (None, w0) \<Longrightarrow> deleteShrinkwrapFiles cfg w0 = (None, w1) \<Longrightarrow>
   GenerateAction_install cfg im co isLazy w =
     seqs [if isLazy then lazyInstall im else seqs [cleanInstall cfg im co, refreshInstallFlag im],
           \<lambda>w'. ok (console_log (os_EOL @ colors_green (''Rush generate finished successfully. ('' @
                   stopwatchToString co (clock w) (clock w') @ '')'')) w')] w1"
  by (simp add: GenerateAction_install_def)

lemma lazyInstall_result:
  "lazyInstall im w1 = (case installCommonModules im Normal
      (console_log (colors_green (os_EOL @ ''Rush is running in \"--lazy\" mode. '' @
             ''You will need to run a normal \"rush generate\" before committing.'')) w1) of
      (Some e, w2) \<Rightarrow> (Some e, w2)
    | (None, w2) \<Rightarrow> (None, console_log (os_EOL @ colors_bold ''(Skipping \"npm shrinkwrap\")'' @ os_EOL) w2))"
  by (simp add: lazyInstall_def split: prod.splits option.splits)

lemma timely_console_log [simp]: "timely (console_log s w) = timely w"
  by (simp add: timely_def)

lemma leavesAbsentD: "leavesAbsent p h \<Longrightarrow> \<not> existsSync p w \<Longrightarrow> \<not> existsSync p (snd (h w))"
  by (simp add: leavesAbsent_def)

lemma refreshInstallFlag_None:
  "refreshInstallFlag im w = (None, w') \<Longrightarrow>
   w' = takeTime (w\<lparr>fs := (fs w)(commonNodeModulesMarkerFilename im \<mapsto> File [] (clock w))\<rparr>)"
  by (auto simp: refreshInstallFlag_def dest: writeFileSync_None split: if_splits)

lemma refreshInstallFlag_missing:
  "\<not> existsSync (commonNodeModulesMarkerFilename im) w \<Longrightarrow>
   refreshInstallFlag im w = (Some (Error ''The install flag file is missing''), w)"
  by (simp add: refreshInstallFlag_def)

lemma refreshInstallFlag_present:
  "isFile (commonNodeModulesMarkerFilename im) w \<Longrightarrow>
   refreshInstallFlag im w =
     (None, takeTime (w\<lparr>fs := (fs w)(commonNodeModulesMarkerFilename im \<mapsto> File [] (clock w))\<rparr>))"
  by (auto simp: refreshInstallFlag_def isFile_def existsSync_def writeFileSync_def
      split: option.splits node.splits)

lemma syncFile_None:
  assumes "syncFile s t w = (None, w')"
  shows "(\<exists>c ts. fs w s = Some (File c ts) \<and>
            w' = takeTime (w\<lparr>fs := (fs w)(t \<mapsto> File c (clock w))\<rparr>)) \<or>
         (fs w s = None \<and> existsSync t w \<and> w' = takeTime (w\<lparr>fs := (fs w)(t := None)\<rparr>)) \<or>
         (fs w s = None \<and> \<not> existsSync t w \<and> w' = w)"
proof (cases "fs w s")
  case None
  show ?thesis
  proof (cases "existsSync t w")
    case True
    with None assms show ?thesis by (auto simp: syncFile_def dest: unlinkSync_None)
  next
    case False
    with None assms show ?thesis by (simp add: syncFile_def)
  qed
next
  case (Some n)
  with assms show ?thesis
    by (cases n) (auto simp: syncFile_def dest: writeFileSync_None)
qed

lemma onExecute_threw:
  "GenerateAction_install cfg im co isLazy w = (Some e, w') \<Longrightarrow>
   GenerateAction_onExecute cfg im co isLazy noLink w = (Threw e, w')"
  by (simp add: GenerateAction_onExecute_def)

lemma onExecute_not_threw:
  "fst (GenerateAction_install cfg im co isLazy w) = None \<Longrightarrow>
   fst (GenerateAction_onExecute cfg im co isLazy noLink w) \<noteq> Threw e"
  by (cases "GenerateAction_install cfg im co isLazy w")
     (auto simp: GenerateAction_onExecute_def split: prod.splits option.splits)

lemma keepsTimelyD: "keepsTimely h \<Longrightarrow> timely w \<Longrightarrow> h w = (r, w') \<Longrightarrow> timely w'"
  by (auto simp: keepsTimely_def)

lemma timely_takeTime: "timely w \<Longrightarrow> timely (takeTime w)"
  by (auto simp: timely_def takeTime_def intro: trans_le_add1)

lemma timely_remove: "timely w \<Longrightarrow> timely (w\<lparr>fs := (fs w)(p := None)\<rparr>)"
  by (simp add: timely_def)

lemma timely_write: "timely w \<Longrightarrow> timely (w\<lparr>fs := (fs w)(p \<mapsto> File d (clock w))\<rparr>)"
  by (simp add: timely_def)

lemma keepsTimely_unlinkSync: "keepsTimely (unlinkSync p)"
  by (auto simp: keepsTimely_def unlinkSync_def timely_remove timely_takeTime
      split: option.splits node.splits)

lemma keepsTimely_lift_log: "keepsTimely (lift (console_log s))"
  by (simp add: keepsTimely_def)

lemma keepsTimely_seqs: "\<forall>p\<in>set ps. keepsTimely p \<Longrightarrow> keepsTimely (seqs ps)"
proof (induction ps)
  case Nil
  then show ?case by (simp add: keepsTimely_def)
next
  case (Cons p ps)
  then have p: "keepsTimely p" and ps: "keepsTimely (seqs ps)" by simp_all
  show ?case
    unfolding keepsTimely_def
  proof (intro allI impI)
    fix w assume t: "timely w"
    obtain r w1 where pw: "p w = (r, w1)" by (cases "p w")
    have t1: "timely w1" using keepsTimelyD [OF p t pw] .
    show "timely (snd (seqs (p # ps) w))"
    proof (cases r)
      case None
      then show ?thesis using pw ps t1 by (simp add: keepsTimely_def)
    next
      case (Some e)
      then show ?thesis using pw t1 by simp
    qed
  qed
qed

lemma keepsTimely_deleteShrinkwrapFiles: "keepsTimely (deleteShrinkwrapFiles cfg)"
proof -
  have a: "keepsTimely (\<lambda>w. if existsSync (committedShrinkwrapFilename cfg) w
                then seqs [lift (console_log (os_EOL @ ''Deleting '' @ committedShrinkwrapFilename cfg)),
                           unlinkSync (committedShrinkwrapFilename cfg)] w
                else ok w)"
    using keepsTimely_seqs [of "[lift (console_log (os_EOL @ ''Deleting '' @ committedShrinkwrapFilename cfg)),
                           unlinkSync (committedShrinkwrapFilename cfg)]"]
    by (simp add: keepsTimely_def keepsTimely_unlinkSync [unfolded keepsTimely_def])
  have b: "keepsTimely (\<lambda>w. if existsSync (tempShrinkwrapFilename cfg) w
                then unlinkSync (tempShrinkwrapFilename cfg) w
                else ok w)"
    using keepsTimely_unlinkSync [of "tempShrinkwrapFilename cfg"] by (simp add: keepsTimely_def)
  show ?thesis unfolding deleteShrinkwrapFiles_def
    by (rule keepsTimely_seqs) (use a b in simp)
qed

lemma keepsTimely_prepare:
  "keepsTimely (rewriteConfigFiles co) \<Longrightarrow> keepsTimely (ensureLocalNpmTool im False) \<Longrightarrow>
   keepsTimely (createTempModules im) \<Longrightarrow> keepsTimely (GenerateAction_prepare im co)"
  unfolding GenerateAction_prepare_def
  by (rule keepsTimely_seqs) (simp add: keepsTimely_lift_log)

lemma full_install_steps:
  assumes run: "GenerateAction_install cfg im co False w = (None, w')"
  obtains w0 wd w1 w2 w3 w4 s1 s2 s3 where
    "GenerateAction_prepare im co w = (None, w0)"
    "deleteShrinkwrapFiles cfg w0 = (None, wd)"
    "installCommonModules im ForceClean wd = (None, w1)"
    "shrinkwrapCommand cfg im co (console_log s1 w1) = (None, w2)"
    "syncFile (tempShrinkwrapFilename cfg) (committedShrinkwrapFilename cfg) (console_log s2 w2) = (None, w3)"
    "refreshInstallFlag im w3 = (None, w4)"
    "w' = console_log s3 w4"
proof -
  from run have "seqs [GenerateAction_prepare im co,
           deleteShrinkwrapFiles cfg,
           seqs [cleanInstall cfg im co, refreshInstallFlag im],
           \<lambda>w'. ok (console_log (os_EOL @ colors_green (''Rush generate finished successfully. ('' @
                   stopwatchToString co (clock w) (clock w') @ '')'')) w')] w = (None, w')"
    by (simp only: GenerateAction_install_def if_False)
  then obtain w0 where prep: "GenerateAction_prepare im co w = (None, w0)"
    and r1: "seqs [deleteShrinkwrapFiles cfg,
           seqs [cleanInstall cfg im co, refreshInstallFlag im],
           \<lambda>w'. ok (console_log (os_EOL @ colors_green (''Rush generate finished successfully. ('' @
                   stopwatchToString co (clock w) (clock w') @ '')'')) w')] w0 = (None, w')"
    by (rule seqs_NoneE)
  from r1 obtain wd where del: "deleteShrinkwrapFiles cfg w0 = (None, wd)"
    and r2: "seqs [seqs [cleanInstall cfg im co, refreshInstallFlag im],
           \<lambda>w'. ok (console_log (os_EOL @ colors_green (''Rush generate finished successfully. ('' @
                   stopwatchToString co (clock w) (clock w') @ '')'')) w')] wd = (None, w')"
    by (rule seqs_NoneE)
  from r2 obtain w4 where full: "seqs [cleanInstall cfg im co, refreshInstallFlag im] wd = (None, w4)"
    and r3: "seqs [\<lambda>w'. ok (console_log (os_EOL @ colors_green (''Rush generate finished successfully. ('' @
                   stopwatchToString co (clock w) (clock w') @ '')'')) w')] w4 = (None, w')"
    by (rule seqs_NoneE)
  from full obtain w3 where clean: "cleanInstall cfg im co wd = (None, w3)"
    and r4: "seqs [refreshInstallFlag im] w3 = (None, w4)"
    by (rule seqs_NoneE)
  from r4 have refresh: "refreshInstallFlag im w3 = (None, w4)" by (simp only: seqs_single)
  from r3 have fin: "w' = console_log (os_EOL @ colors_green (''Rush generate finished successfully. ('' @
                   stopwatchToString co (clock w) (clock w4) @ '')'')) w4"
    by (simp add: seqs_single)
  from clean have "seqs [installCommonModules im ForceClean,
           lift (console_log (os_EOL @ colors_bold ''Running \"npm shrinkwrap\"...'')),
           shrinkwrapCommand cfg im co,
           lift (console_log (''\"npm shrinkwrap\" completed'' @ os_EOL)),
           syncFile (tempShrinkwrapFilename cfg) (committedShrinkwrapFilename cfg)] wd = (None, w3)"
    by (simp only: cleanInstall_def)
  then obtain w1 where inst: "installCommonModules im ForceClean wd = (None, w1)"
    and c1: "seqs [lift (console_log (os_EOL @ colors_bold ''Running \"npm shrinkwrap\"...'')),
           shrinkwrapCommand cfg im co,
           lift (console_log (''\"npm shrinkwrap\" completed'' @ os_EOL)),
           syncFile (tempShrinkwrapFilename cfg) (committedShrinkwrapFilename cfg)] w1 = (None, w3)"
    by (rule seqs_NoneE)
  from c1 have c2: "seqs [shrinkwrapCommand cfg im co,
           lift (console_log (''\"npm shrinkwrap\" completed'' @ os_EOL)),
           syncFile (tempShrinkwrapFilename cfg) (committedShrinkwrapFilename cfg)]
           (console_log (os_EOL @ colors_bold ''Running \"npm shrinkwrap\"...'') w1) = (None, w3)"
    by (simp only: seqs_lift)
  from c2 obtain w2 where shr: "shrinkwrapCommand cfg im co
           (console_log (os_EOL @ colors_bold ''Running \"npm shrinkwrap\"...'') w1) = (None, w2)"
    and c3: "seqs [lift (console_log (''\"npm shrinkwrap\" completed'' @ os_EOL)),
           syncFile (tempShrinkwrapFilename cfg) (committedShrinkwrapFilename cfg)] w2 = (None, w3)"
    by (rule seqs_NoneE)
  from c3 have sync: "syncFile (tempShrinkwrapFilename cfg) (committedShrinkwrapFilename cfg)
      (console_log (''\"npm shrinkwrap\" completed'' @ os_EOL) w2) = (None, w3)"
    by (simp only: seqs_lift seqs_single)
  from prep del inst shr sync refresh fin show ?thesis by (rule that)
qed

text \<open>Facts for evaluating the concrete repository.\<close>

lemmas run_defs = GenerateAction_onExecute_def GenerateAction_install_def GenerateAction_prepare_def
  deleteShrinkwrapFiles_def lazyInstall_def cleanInstall_def shrinkwrapCommand_def refreshInstallFlag_def
  syncFile_def exampleConfiguration_def exampleInstallManager_def exampleCollaborators_def
  failingInstallManager_def forgetfulInstallManager_def
  existsSync_def isFile_def unlinkSync_def writeFileSync_def takeTime_def elapse_def console_log_def
  linkedRepo_def path_join_def

lemma leavesAbsent_throw: "leavesAbsent p (throw e)"
  by (simp add: leavesAbsent_def)

lemma leavesAbsent_example_install:
  "leavesAbsent ''common/npm-shrinkwrap.json'' (installCommonModules exampleInstallManager t)"
  by (simp add: leavesAbsent_def exampleInstallManager_def existsSync_def writeFileSync_def elapse_def
      takeTime_def split: option.splits node.splits)

lemma keepsTimely_ok: "keepsTimely ok"
  by (simp add: keepsTimely_def)

lemma keepsTimely_writeFileSync: "keepsTimely (writeFileSync p d)"
  by (auto simp: keepsTimely_def writeFileSync_def timely_write timely_takeTime
      split: option.splits node.splits)

lemma keepsTimely_elapse: "keepsTimely (lift (elapse n))"
  by (auto simp: keepsTimely_def timely_def elapse_def intro: trans_le_add1)

lemma timely_linkedRepo: "timely linkedRepo"
  by (simp add: timely_def linkedRepo_def)


text \<open>
  C1, as the code has it: the \<^verbatim>\<open>--lazy\<close> mode does not leave the committed lock file
  untouched. Once the preparation has succeeded, both copies of the shrinkwrap file are
  deleted before the package manager is invoked; then only the incremental install runs
  (the filesystem at the end is the one that install leaves, no \<^verbatim>\<open>npm shrinkwrap\<close> and no
  copy follow), so the committed lock file is absent after the run whenever the install
  helper itself creates nothing at its path.
\<close>

theorem lazy_install_deletes_lock_file:
  assumes prep: "GenerateAction_prepare im co w = (None, w0)"
    and del: "deleteShrinkwrapFiles cfg w0 = (None, w1)"
  shows "\<not> existsSync (committedShrinkwrapFilename cfg) w1 \<and>
         \<not> existsSync (tempShrinkwrapFilename cfg) w1 \<and>
         (\<exists>w1'. fs w1' = fs w1 \<and>
            fst (GenerateAction_install cfg im co True w) = fst (installCommonModules im Normal w1') \<and>
            fs (snd (GenerateAction_install cfg im co True w)) =
              fs (snd (installCommonModules im Normal w1'))) \<and>
         (leavesAbsent (committedShrinkwrapFilename cfg) (installCommonModules im Normal) \<longrightarrow>
            \<not> existsSync (committedShrinkwrapFilename cfg)
                (snd (GenerateAction_install cfg im co True w)))"
proof -
  let ?w1' = "console_log (colors_green (os_EOL @ ''Rush is running in \"--lazy\" mode. '' @
             ''You will need to run a normal \"rush generate\" before committing.'')) w1"
  have absent: "\<not> existsSync (committedShrinkwrapFilename cfg) w1 \<and>
      \<not> existsSync (tempShrinkwrapFilename cfg) w1"
    using del by (rule deleteShrinkwrapFiles_absent)
  have run: "GenerateAction_install cfg im co True w =
      (case installCommonModules im Normal ?w1' of
         (Some e, w2) \<Rightarrow> (Some e, w2)
       | (None, w2) \<Rightarrow> (None, console_log (os_EOL @ colors_green (''Rush generate finished successfully. ('' @
                   stopwatchToString co (clock w)
                     (clock (console_log (os_EOL @ colors_bold ''(Skipping \"npm shrinkwrap\")'' @ os_EOL) w2)) @ '')''))
             (console_log (os_EOL @ colors_bold ''(Skipping \"npm shrinkwrap\")'' @ os_EOL) w2)))"
    by (simp add: install_unfold [OF prep del] lazyInstall_result split: prod.splits option.splits)
  have same: "fst (GenerateAction_install cfg im co True w) = fst (installCommonModules im Normal ?w1') \<and>
      fs (snd (GenerateAction_install cfg im co True w)) = fs (snd (installCommonModules im Normal ?w1'))"
    unfolding run by (cases "installCommonModules im Normal ?w1'") (auto split: option.splits)
  have frame: "\<not> existsSync (committedShrinkwrapFilename cfg) (snd (GenerateAction_install cfg im co True w))"
    if "leavesAbsent (committedShrinkwrapFilename cfg) (installCommonModules im Normal)"
  proof -
    have "\<not> existsSync (committedShrinkwrapFilename cfg) (snd (installCommonModules im Normal ?w1'))"
      using that absent by (simp add: leavesAbsentD)
    then show ?thesis using same by (simp add: existsSync_def)
  qed
  have "fs ?w1' = fs w1" by simp
  with absent same frame show ?thesis by blast
qed

theorem lazy_install_deletes_lock_file_witness:
  "fst (GenerateAction_prepare exampleInstallManager exampleCollaborators linkedRepo) = None \<and>
   fst (deleteShrinkwrapFiles exampleConfiguration
         (snd (GenerateAction_prepare exampleInstallManager exampleCollaborators linkedRepo))) = None \<and>
   leavesAbsent ''common/npm-shrinkwrap.json'' (installCommonModules exampleInstallManager Normal) \<and>
   \<not> existsSync ''common/npm-shrinkwrap.json''
      (snd (GenerateAction_install exampleConfiguration exampleInstallManager exampleCollaborators
              True linkedRepo))"
proof -
  define w0 where "w0 = snd (GenerateAction_prepare exampleInstallManager exampleCollaborators linkedRepo)"
  define w1 where "w1 = snd (deleteShrinkwrapFiles exampleConfiguration w0)"
  have p: "fst (GenerateAction_prepare exampleInstallManager exampleCollaborators linkedRepo) = None"
    by (simp add: run_defs)
  have d: "fst (deleteShrinkwrapFiles exampleConfiguration w0) = None"
    unfolding w0_def by (simp add: run_defs)
  have prep: "GenerateAction_prepare exampleInstallManager exampleCollaborators linkedRepo = (None, w0)"
    using p by (simp add: w0_def prod_eq_iff)
  have del: "deleteShrinkwrapFiles exampleConfiguration w0 = (None, w1)"
    using d by (simp add: w1_def prod_eq_iff)
  have frame: "leavesAbsent (committedShrinkwrapFilename exampleConfiguration)
      (installCommonModules exampleInstallManager Normal)"
    using leavesAbsent_example_install [of Normal] by (simp add: exampleConfiguration_def)
  show ?thesis
    using lazy_install_deletes_lock_file [OF prep del] frame p d
    by (simp add: w0_def exampleConfiguration_def)
qed

text \<open>
  C1 as stated fails on a repository with a committed lock file: a \<^verbatim>\<open>--lazy\<close> run that
  succeeds leaves no file at the committed location.
\<close>

theorem lazy_install_lock_file_counterexample:
  "isFile ''common/npm-shrinkwrap.json'' linkedRepo \<and>
   fst (GenerateAction_onExecute exampleConfiguration exampleInstallManager exampleCollaborators
          True False linkedRepo) = Returned \<and>
   \<not> existsSync ''common/npm-shrinkwrap.json''
      (snd (GenerateAction_onExecute exampleConfiguration exampleInstallManager exampleCollaborators
              True False linkedRepo))"
  by (simp add: run_defs)

text \<open>
  C2: in a full run whose steps up to the copy of the lock file have all succeeded, a
  missing install flag file makes \<^verbatim>\<open>onExecute\<close> throw ``The install flag file is
  missing''; with the flag file present nothing is thrown and the flag file is rewritten,
  empty, with the current time.
\<close>

theorem missing_install_flag:
  assumes "seqs [GenerateAction_prepare im co, deleteShrinkwrapFiles cfg, cleanInstall cfg im co] w = (None, w')"
  shows "(\<not> existsSync (commonNodeModulesMarkerFilename im) w' \<longrightarrow>
            GenerateAction_onExecute cfg im co False noLink w =
              (Threw (Error ''The install flag file is missing''), w')) \<and>
         (isFile (commonNodeModulesMarkerFilename im) w' \<longrightarrow>
            fst (GenerateAction_install cfg im co False w) = None \<and>
            fst (GenerateAction_onExecute cfg im co False noLink w) \<noteq> Threw e \<and>
            fs (snd (GenerateAction_install cfg im co False w)) =
              (fs w')(commonNodeModulesMarkerFilename im \<mapsto> File [] (clock w')))"
proof -
  from assms obtain w0 where prep: "GenerateAction_prepare im co w = (None, w0)"
    and rest: "seqs [deleteShrinkwrapFiles cfg, cleanInstall cfg im co] w0 = (None, w')"
    by (rule seqs_NoneE)
  from rest obtain w1 where del: "deleteShrinkwrapFiles cfg w0 = (None, w1)"
    and clean': "seqs [cleanInstall cfg im co] w1 = (None, w')"
    by (rule seqs_NoneE)
  from clean' have clean: "cleanInstall cfg im co w1 = (None, w')"
    by (simp only: seqs_single)
  have missing: "GenerateAction_onExecute cfg im co False noLink w =
      (Threw (Error ''The install flag file is missing''), w')"
    if "\<not> existsSync (commonNodeModulesMarkerFilename im) w'"
    by (rule onExecute_threw)
       (simp add: install_unfold [OF prep del] clean refreshInstallFlag_missing [OF that])
  have present: "fst (GenerateAction_install cfg im co False w) = None \<and>
      fs (snd (GenerateAction_install cfg im co False w)) =
        (fs w')(commonNodeModulesMarkerFilename im \<mapsto> File [] (clock w'))"
    if "isFile (commonNodeModulesMarkerFilename im) w'"
    by (simp add: install_unfold [OF prep del] clean refreshInstallFlag_present [OF that])
  show ?thesis using missing present onExecute_not_threw by blast
qed

theorem missing_install_flag_witness:
  "fst (seqs [GenerateAction_prepare forgetfulInstallManager exampleCollaborators,
              deleteShrinkwrapFiles exampleConfiguration,
              cleanInstall exampleConfiguration forgetfulInstallManager exampleCollaborators] linkedRepo) = None \<and>
   \<not> existsSync ''common/temp/last-install.flag''
      (snd (seqs [GenerateAction_prepare forgetfulInstallManager exampleCollaborators,
              deleteShrinkwrapFiles exampleConfiguration,
              cleanInstall exampleConfiguration forgetfulInstallManager exampleCollaborators] linkedRepo)) \<and>
   fst (GenerateAction_onExecute exampleConfiguration forgetfulInstallManager exampleCollaborators
          False False linkedRepo) = Threw (Error ''The install flag file is missing'') \<and>
   fst (seqs [GenerateAction_prepare exampleInstallManager exampleCollaborators,
              deleteShrinkwrapFiles exampleConfiguration,
              cleanInstall exampleConfiguration exampleInstallManager exampleCollaborators] linkedRepo) = None \<and>
   isFile ''common/temp/last-install.flag''
      (snd (seqs [GenerateAction_prepare exampleInstallManager exampleCollaborators,
              deleteShrinkwrapFiles exampleConfiguration,
              cleanInstall exampleConfiguration exampleInstallManager exampleCollaborators] linkedRepo)) \<and>
   fst (GenerateAction_install exampleConfiguration exampleInstallManager exampleCollaborators
          False linkedRepo) = None \<and>
   fs (snd (GenerateAction_install exampleConfiguration exampleInstallManager exampleCollaborators
          False linkedRepo)) ''common/temp/last-install.flag'' = Some (File [] 23)"
proof -
  define u where "u = snd (seqs [GenerateAction_prepare forgetfulInstallManager exampleCollaborators,
              deleteShrinkwrapFiles exampleConfiguration,
              cleanInstall exampleConfiguration forgetfulInstallManager exampleCollaborators] linkedRepo)"
  define v where "v = snd (seqs [GenerateAction_prepare exampleInstallManager exampleCollaborators,
              deleteShrinkwrapFiles exampleConfiguration,
              cleanInstall exampleConfiguration exampleInstallManager exampleCollaborators] linkedRepo)"
  have fu: "fst (seqs [GenerateAction_prepare forgetfulInstallManager exampleCollaborators,
              deleteShrinkwrapFiles exampleConfiguration,
              cleanInstall exampleConfiguration forgetfulInstallManager exampleCollaborators] linkedRepo) = None"
    by (simp add: run_defs)
  have fv: "fst (seqs [GenerateAction_prepare exampleInstallManager exampleCollaborators,
              deleteShrinkwrapFiles exampleConfiguration,
              cleanInstall exampleConfiguration exampleInstallManager exampleCollaborators] linkedRepo) = None"
    by (simp add: run_defs)
  have ru: "seqs [GenerateAction_prepare forgetfulInstallManager exampleCollaborators,
              deleteShrinkwrapFiles exampleConfiguration,
              cleanInstall exampleConfiguration forgetfulInstallManager exampleCollaborators] linkedRepo = (None, u)"
    using fu by (simp only: u_def prod_eq_iff fst_conv snd_conv simp_thms)
  have rv: "seqs [GenerateAction_prepare exampleInstallManager exampleCollaborators,
              deleteShrinkwrapFiles exampleConfiguration,
              cleanInstall exampleConfiguration exampleInstallManager exampleCollaborators] linkedRepo = (None, v)"
    using fv by (simp only: v_def prod_eq_iff fst_conv snd_conv simp_thms)
  have mu: "\<not> existsSync (commonNodeModulesMarkerFilename forgetfulInstallManager) u"
    unfolding u_def by (simp add: run_defs)
  have mv: "isFile (commonNodeModulesMarkerFilename exampleInstallManager) v \<and> clock v = 23"
    unfolding v_def by (simp add: run_defs)
  have nu: "commonNodeModulesMarkerFilename forgetfulInstallManager = ''common/temp/last-install.flag''"
    and nv: "commonNodeModulesMarkerFilename exampleInstallManager = ''common/temp/last-install.flag''"
    by (simp_all add: forgetfulInstallManager_def exampleInstallManager_def)
  show ?thesis
    using missing_install_flag [OF ru, of False] missing_install_flag [OF rv, of False "Error []"]
      fu fv mu mv
    unfolding nu nv u_def [symmetric] v_def [symmetric]
    by simp
qed

text \<open>
  C9: in a full run the committed lock file is gone when the package manager is invoked:
  the clean install starts in a world without it. If that install then throws,
  \<^verbatim>\<open>onExecute\<close> throws the same error in the world the install left, restoring nothing:
  the committed lock file stays absent, the install creating nothing at its path.
\<close>

theorem full_install_not_atomic:
  assumes prep: "GenerateAction_prepare im co w = (None, w0)"
    and del: "deleteShrinkwrapFiles cfg w0 = (None, w1)"
  shows "\<not> existsSync (committedShrinkwrapFilename cfg) w1 \<and>
         (\<forall>e w2. installCommonModules im ForceClean w1 = (Some e, w2) \<longrightarrow>
            GenerateAction_onExecute cfg im co False noLink w = (Threw e, w2) \<and>
            (leavesAbsent (committedShrinkwrapFilename cfg) (installCommonModules im ForceClean) \<longrightarrow>
               \<not> existsSync (committedShrinkwrapFilename cfg) w2))"
proof -
  have absent: "\<not> existsSync (committedShrinkwrapFilename cfg) w1"
    using deleteShrinkwrapFiles_absent [OF del] by simp
  have fails: "GenerateAction_onExecute cfg im co False noLink w = (Threw e, w2)"
    if "installCommonModules im ForceClean w1 = (Some e, w2)" for e w2
    by (rule onExecute_threw) (simp add: install_unfold [OF prep del] cleanInstall_def that)
  have stays: "\<not> existsSync (committedShrinkwrapFilename cfg) w2"
    if "installCommonModules im ForceClean w1 = (Some e, w2)"
      and "leavesAbsent (committedShrinkwrapFilename cfg) (installCommonModules im ForceClean)" for e w2
    using leavesAbsentD [OF that(2) absent] that(1) by simp
  show ?thesis using absent fails stays by blast
qed

theorem full_install_not_atomic_witness:
  "isFile ''common/npm-shrinkwrap.json'' linkedRepo \<and>
   fst (GenerateAction_prepare failingInstallManager exampleCollaborators linkedRepo) = None \<and>
   fst (deleteShrinkwrapFiles exampleConfiguration
         (snd (GenerateAction_prepare failingInstallManager exampleCollaborators linkedRepo))) = None \<and>
   leavesAbsent ''common/npm-shrinkwrap.json'' (installCommonModules failingInstallManager ForceClean) \<and>
   fst (GenerateAction_onExecute exampleConfiguration failingInstallManager exampleCollaborators
          False False linkedRepo) = Threw (Error ''npm install failed'') \<and>
   \<not> existsSync ''common/npm-shrinkwrap.json''
      (snd (GenerateAction_onExecute exampleConfiguration failingInstallManager exampleCollaborators
              False False linkedRepo))"
proof -
  define w0 where "w0 = snd (GenerateAction_prepare failingInstallManager exampleCollaborators linkedRepo)"
  define w1 where "w1 = snd (deleteShrinkwrapFiles exampleConfiguration w0)"
  have b: "isFile ''common/npm-shrinkwrap.json'' linkedRepo"
    by (simp add: isFile_def linkedRepo_def)
  have p: "fst (GenerateAction_prepare failingInstallManager exampleCollaborators linkedRepo) = None"
    by (simp add: run_defs)
  have d: "fst (deleteShrinkwrapFiles exampleConfiguration w0) = None"
    unfolding w0_def by (simp add: run_defs)
  have prep: "GenerateAction_prepare failingInstallManager exampleCollaborators linkedRepo = (None, w0)"
    using p by (simp add: w0_def prod_eq_iff)
  have del: "deleteShrinkwrapFiles exampleConfiguration w0 = (None, w1)"
    using d by (simp add: w1_def prod_eq_iff)
  have inst: "installCommonModules failingInstallManager ForceClean w1 = (Some (Error ''npm install failed''), w1)"
    by (simp add: failingInstallManager_def)
  have frame: "leavesAbsent (committedShrinkwrapFilename exampleConfiguration)
      (installCommonModules failingInstallManager ForceClean)"
    by (simp add: failingInstallManager_def leavesAbsent_throw)
  have c: "committedShrinkwrapFilename exampleConfiguration = ''common/npm-shrinkwrap.json''"
    by (simp add: exampleConfiguration_def)
  show ?thesis
    using full_install_not_atomic [OF prep del, of False] inst frame b p d
    unfolding c w0_def [symmetric]
    by simp
qed

text \<open>
  C3, as the code has it: a full run that succeeds has gone through these steps in this
  order: preparation and deletion of the old lock files, the clean install, the
  \<^verbatim>\<open>npm shrinkwrap\<close> command on the filesystem that install left, the copy of the staging
  lock file to the committed location on the filesystem that command left (stamped with
  the time the copy starts; the committed file is absent when there is no staging file),
  and only then, at the time the copy has ended, the rewrite of the install flag file.
  Hence the flag file's time is at least the committed lock file's; and when no file is
  dated in the future as the run starts and no collaborator leaves one so dated, the
  committed lock file's time is at least that of every other file, the synthesized
  manifest among them.
\<close>

theorem full_install_order:
  assumes run: "GenerateAction_install cfg im co False w = (None, w')"
  shows "(\<exists>wd w1 w1' w2 w2' w3.
            seqs [GenerateAction_prepare im co, deleteShrinkwrapFiles cfg] w = (None, wd) \<and>
            installCommonModules im ForceClean wd = (None, w1) \<and>
            fs w1' = fs w1 \<and> clock w1' = clock w1 \<and>
            shrinkwrapCommand cfg im co w1' = (None, w2) \<and>
            fs w2' = fs w2 \<and> clock w2' = clock w2 \<and> pace w2' = pace w2 \<and>
            syncFile (tempShrinkwrapFilename cfg) (committedShrinkwrapFilename cfg) w2' = (None, w3) \<and>
            fs w3 = (fs w2)(committedShrinkwrapFilename cfg :=
                      (case fs w2 (tempShrinkwrapFilename cfg) of
                         Some (File c t) \<Rightarrow> Some (File c (clock w2))
                       | _ \<Rightarrow> None)) \<and>
            (\<forall>c t. fs w2 (tempShrinkwrapFilename cfg) = Some (File c t) \<longrightarrow>
               clock w3 = clock w2 + pace w2 (clock w2)) \<and>
            clock w2 \<le> clock w3 \<and>
            refreshInstallFlag im w3 =
              (None, takeTime (w3\<lparr>fs := (fs w3)(commonNodeModulesMarkerFilename im \<mapsto>
                                              File [] (clock w3))\<rparr>)) \<and>
            fs w' = (fs w3)(commonNodeModulesMarkerFilename im \<mapsto> File [] (clock w3))) \<and>
         (\<exists>tm. fs w' (commonNodeModulesMarkerFilename im) = Some (File [] tm) \<and>
            (\<forall>cl tl. fs w' (committedShrinkwrapFilename cfg) = Some (File cl tl) \<longrightarrow>
               tl \<le> tm \<and>
               (timely w \<and> keepsTimely (rewriteConfigFiles co) \<and>
                keepsTimely (ensureLocalNpmTool im False) \<and> keepsTimely (createTempModules im) \<and>
                keepsTimely (installCommonModules im ForceClean) \<and>
                keepsTimely (shrinkwrapCommand cfg im co) \<longrightarrow>
                (\<forall>m cm t. m \<noteq> committedShrinkwrapFilename cfg \<and>
                   m \<noteq> commonNodeModulesMarkerFilename im \<and>
                   fs w' m = Some (File cm t) \<longrightarrow> t \<le> tl))))"
proof -
  let ?marker = "commonNodeModulesMarkerFilename im"
  let ?committed = "committedShrinkwrapFilename cfg"
  let ?temp = "tempShrinkwrapFilename cfg"
  from run obtain w0 wd w1 w2 w3 w4 s1 s2 s3 where
    prep: "GenerateAction_prepare im co w = (None, w0)" and
    del: "deleteShrinkwrapFiles cfg w0 = (None, wd)" and
    inst: "installCommonModules im ForceClean wd = (None, w1)" and
    shr: "shrinkwrapCommand cfg im co (console_log s1 w1) = (None, w2)" and
    sync: "syncFile ?temp ?committed (console_log s2 w2) = (None, w3)" and
    refresh: "refreshInstallFlag im w3 = (None, w4)" and
    fin: "w' = console_log s3 w4"
    by (rule full_install_steps)
  have pd: "seqs [GenerateAction_prepare im co, deleteShrinkwrapFiles cfg] w = (None, wd)"
    using prep del by (simp add: seqs_single)
  have w4: "w4 = takeTime (w3\<lparr>fs := (fs w3)(?marker \<mapsto> File [] (clock w3))\<rparr>)"
    using refresh by (rule refreshInstallFlag_None)
  have fsw': "fs w' = (fs w3)(?marker \<mapsto> File [] (clock w3))"
    using fin w4 by simp
  have fs3: "fs w3 = (fs w2)(?committed :=
                      (case fs w2 ?temp of Some (File c t) \<Rightarrow> Some (File c (clock w2)) | _ \<Rightarrow> None))"
    using syncFile_None [OF sync] by (auto simp: existsSync_def)
  have copied: "clock w3 = clock w2 + pace w2 (clock w2)" if "fs w2 ?temp = Some (File c t)" for c t
    using syncFile_None [OF sync] that by (auto simp: clock_takeTime console_log_def)
  have later: "clock w2 \<le> clock w3"
    using syncFile_None [OF sync] by (auto simp: clock_takeTime console_log_def)
  have order: "\<exists>wd w1 w1' w2 w2' w3.
            seqs [GenerateAction_prepare im co, deleteShrinkwrapFiles cfg] w = (None, wd) \<and>
            installCommonModules im ForceClean wd = (None, w1) \<and>
            fs w1' = fs w1 \<and> clock w1' = clock w1 \<and>
            shrinkwrapCommand cfg im co w1' = (None, w2) \<and>
            fs w2' = fs w2 \<and> clock w2' = clock w2 \<and> pace w2' = pace w2 \<and>
            syncFile ?temp ?committed w2' = (None, w3) \<and>
            fs w3 = (fs w2)(?committed :=
                      (case fs w2 ?temp of Some (File c t) \<Rightarrow> Some (File c (clock w2)) | _ \<Rightarrow> None)) \<and>
            (\<forall>c t. fs w2 ?temp = Some (File c t) \<longrightarrow> clock w3 = clock w2 + pace w2 (clock w2)) \<and>
            clock w2 \<le> clock w3 \<and>
            refreshInstallFlag im w3 =
              (None, takeTime (w3\<lparr>fs := (fs w3)(?marker \<mapsto> File [] (clock w3))\<rparr>)) \<and>
            fs w' = (fs w3)(?marker \<mapsto> File [] (clock w3))"
  proof (intro exI conjI)
    show "seqs [GenerateAction_prepare im co, deleteShrinkwrapFiles cfg] w = (None, wd)" by (rule pd)
    show "installCommonModules im ForceClean wd = (None, w1)" by (rule inst)
    show "fs (console_log s1 w1) = fs w1" by simp
    show "clock (console_log s1 w1) = clock w1" by simp
    show "shrinkwrapCommand cfg im co (console_log s1 w1) = (None, w2)" by (rule shr)
    show "fs (console_log s2 w2) = fs w2" by simp
    show "clock (console_log s2 w2) = clock w2" by simp
    show "pace (console_log s2 w2) = pace w2" by (simp add: console_log_def)
    show "syncFile ?temp ?committed (console_log s2 w2) = (None, w3)" by (rule sync)
    show "fs w3 = (fs w2)(?committed :=
                      (case fs w2 ?temp of Some (File c t) \<Rightarrow> Some (File c (clock w2)) | _ \<Rightarrow> None))"
      by (rule fs3)
    show "\<forall>c t. fs w2 ?temp = Some (File c t) \<longrightarrow> clock w3 = clock w2 + pace w2 (clock w2)"
      using copied by blast
    show "clock w2 \<le> clock w3" by (rule later)
    show "refreshInstallFlag im w3 =
        (None, takeTime (w3\<lparr>fs := (fs w3)(?marker \<mapsto> File [] (clock w3))\<rparr>))"
      using refresh w4 by simp
    show "fs w' = (fs w3)(?marker \<mapsto> File [] (clock w3))" by (rule fsw')
  qed
  have flag: "fs w' ?marker = Some (File [] (clock w3))"
    using fsw' by simp
  have lock: "tl = clock w2 \<or> tl = clock w3" if "fs w' ?committed = Some (File cl tl)" for cl tl
    using that fs3 fsw' by (auto split: option.splits node.splits if_splits)
  have newer: "tl \<le> clock w3" if "fs w' ?committed = Some (File cl tl)" for cl tl
    using lock [OF that] later by auto
  have older: "t \<le> tl"
    if l: "fs w' ?committed = Some (File cl tl)"
      and t: "timely w" and k1: "keepsTimely (rewriteConfigFiles co)"
      and k2: "keepsTimely (ensureLocalNpmTool im False)" and k3: "keepsTimely (createTempModules im)"
      and k4: "keepsTimely (installCommonModules im ForceClean)"
      and k5: "keepsTimely (shrinkwrapCommand cfg im co)"
      and m: "m \<noteq> ?committed" "m \<noteq> ?marker" "fs w' m = Some (File cm t)" for cl tl m cm t
  proof -
    have t0: "timely w0" using keepsTimelyD [OF keepsTimely_prepare [OF k1 k2 k3] t prep] .
    have td: "timely wd" using keepsTimelyD [OF keepsTimely_deleteShrinkwrapFiles t0 del] .
    have t1: "timely w1" using keepsTimelyD [OF k4 td inst] .
    have t2: "timely w2" using keepsTimelyD [OF k5 _ shr] t1 by simp
    have "fs w' m = fs w2 m" using m(1,2) fs3 fsw' by simp
    with m(3) t2 have "t \<le> clock w2" by (auto simp: timely_def)
    with lock [OF l] later show ?thesis by auto
  qed
  have stamps: "\<exists>tm. fs w' ?marker = Some (File [] tm) \<and>
            (\<forall>cl tl. fs w' ?committed = Some (File cl tl) \<longrightarrow>
               tl \<le> tm \<and>
               (timely w \<and> keepsTimely (rewriteConfigFiles co) \<and>
                keepsTimely (ensureLocalNpmTool im False) \<and> keepsTimely (createTempModules im) \<and>
                keepsTimely (installCommonModules im ForceClean) \<and>
                keepsTimely (shrinkwrapCommand cfg im co) \<longrightarrow>
                (\<forall>m cm t. m \<noteq> ?committed \<and> m \<noteq> ?marker \<and> fs w' m = Some (File cm t) \<longrightarrow> t \<le> tl)))"
    using flag newer older by blast
  show ?thesis using order stamps by (rule conjI)
qed

theorem full_install_order_witness:
  "timely linkedRepo \<and>
   fst (GenerateAction_install exampleConfiguration exampleInstallManager exampleCollaborators
          False linkedRepo) = None \<and>
   (\<exists>tm tl tp.
      fs (snd (GenerateAction_install exampleConfiguration exampleInstallManager exampleCollaborators
                 False linkedRepo)) ''common/temp/last-install.flag'' = Some (File [] tm) \<and>
      fs (snd (GenerateAction_install exampleConfiguration exampleInstallManager exampleCollaborators
                 False linkedRepo)) ''common/npm-shrinkwrap.json'' = Some (File ''v2'' tl) \<and>
      fs (snd (GenerateAction_install exampleConfiguration exampleInstallManager exampleCollaborators
                 False linkedRepo)) ''common/temp/package.json'' = Some (File ''{}'' tp) \<and>
      tp = 5 \<and> tl = 22 \<and> tm = 23 \<and> tp \<le> tl \<and> tl \<le> tm)"
proof -
  define w' where "w' = snd (GenerateAction_install exampleConfiguration exampleInstallManager
      exampleCollaborators False linkedRepo)"
  define marker where "marker = commonNodeModulesMarkerFilename exampleInstallManager"
  define committed where "committed = committedShrinkwrapFilename exampleConfiguration"
  define manifest where "manifest = ''common/temp/package.json''"
  have f: "fst (GenerateAction_install exampleConfiguration exampleInstallManager exampleCollaborators
          False linkedRepo) = None"
    by (simp add: run_defs)
  have run: "GenerateAction_install exampleConfiguration exampleInstallManager exampleCollaborators
          False linkedRepo = (None, w')"
    using f by (simp only: w'_def prod_eq_iff fst_conv snd_conv simp_thms)
  have k1: "keepsTimely (rewriteConfigFiles exampleCollaborators)"
    by (simp add: exampleCollaborators_def keepsTimely_ok)
  have k2: "keepsTimely (ensureLocalNpmTool exampleInstallManager False)"
    by (simp add: exampleInstallManager_def keepsTimely_ok)
  have k3: "keepsTimely (createTempModules exampleInstallManager)"
    by (simp add: exampleInstallManager_def keepsTimely_writeFileSync)
  have k4: "keepsTimely (installCommonModules exampleInstallManager ForceClean)"
    by (simp add: exampleInstallManager_def keepsTimely_seqs keepsTimely_elapse keepsTimely_writeFileSync)
  have k5: "keepsTimely (shrinkwrapCommand exampleConfiguration exampleInstallManager exampleCollaborators)"
    by (simp add: shrinkwrapCommand_def exampleCollaborators_def keepsTimely_seqs keepsTimely_elapse
        keepsTimely_writeFileSync)
  have others: "manifest \<noteq> committed \<and> manifest \<noteq> marker"
    by (simp add: manifest_def marker_def committed_def exampleInstallManager_def exampleConfiguration_def)
  have flag: "fs w' marker = Some (File [] 23)"
    unfolding w'_def marker_def by (simp add: run_defs)
  have lock: "fs w' committed = Some (File ''v2'' 22)"
    unfolding w'_def committed_def by (simp add: run_defs)
  have man: "fs w' manifest = Some (File ''{}'' 5)"
    unfolding w'_def manifest_def by (simp add: run_defs)
  have hyps: "timely linkedRepo \<and> keepsTimely (rewriteConfigFiles exampleCollaborators) \<and>
      keepsTimely (ensureLocalNpmTool exampleInstallManager False) \<and>
      keepsTimely (createTempModules exampleInstallManager) \<and>
      keepsTimely (installCommonModules exampleInstallManager ForceClean) \<and>
      keepsTimely (shrinkwrapCommand exampleConfiguration exampleInstallManager exampleCollaborators)"
    using timely_linkedRepo k1 k2 k3 k4 k5 by (intro conjI)
  note stamped = full_install_order [OF run, THEN conjunct2, folded marker_def committed_def]
  from stamped obtain tm where tm: "fs w' marker = Some (File [] tm)"
    and stamps: "\<forall>cl tl. fs w' committed = Some (File cl tl) \<longrightarrow>
        tl \<le> tm \<and>
        (timely linkedRepo \<and> keepsTimely (rewriteConfigFiles exampleCollaborators) \<and>
         keepsTimely (ensureLocalNpmTool exampleInstallManager False) \<and>
         keepsTimely (createTempModules exampleInstallManager) \<and>
         keepsTimely (installCommonModules exampleInstallManager ForceClean) \<and>
         keepsTimely (shrinkwrapCommand exampleConfiguration exampleInstallManager exampleCollaborators) \<longrightarrow>
         (\<forall>m cm t. m \<noteq> committed \<and> m \<noteq> marker \<and> fs w' m = Some (File cm t) \<longrightarrow> t \<le> tl))"
    by (elim exE conjE)
  from tm flag have tm23: "tm = 23" by simp
  note both = stamps [rule_format, OF lock]
  from both have newer: "22 \<le> tm" by (rule conjunct1)
  from both have "timely linkedRepo \<and> keepsTimely (rewriteConfigFiles exampleCollaborators) \<and>
         keepsTimely (ensureLocalNpmTool exampleInstallManager False) \<and>
         keepsTimely (createTempModules exampleInstallManager) \<and>
         keepsTimely (installCommonModules exampleInstallManager ForceClean) \<and>
         keepsTimely (shrinkwrapCommand exampleConfiguration exampleInstallManager exampleCollaborators) \<longrightarrow>
         (\<forall>m cm t. m \<noteq> committed \<and> m \<noteq> marker \<and> fs w' m = Some (File cm t) \<longrightarrow> t \<le> 22)"
    by (rule conjunct2)
  from this hyps have older:
    "\<forall>m cm t. m \<noteq> committed \<and> m \<noteq> marker \<and> fs w' m = Some (File cm t) \<longrightarrow> t \<le> 22"
    by (rule mp)
  from older others man have "(5::nat) \<le> 22" by blast
  with flag lock man newer tm23 have
    "fs w' marker = Some (File [] 23) \<and> fs w' committed = Some (File ''v2'' 22) \<and>
     fs w' manifest = Some (File ''{}'' 5) \<and> (5::nat) = 5 \<and> (22::nat) = 22 \<and> (23::nat) = 23 \<and>
     (5::nat) \<le> 22 \<and> (22::nat) \<le> 23"
    by simp
  then have "\<exists>tm tl tp. fs w' marker = Some (File [] tm) \<and> fs w' committed = Some (File ''v2'' tl) \<and>
     fs w' manifest = Some (File ''{}'' tp) \<and> tp = 5 \<and> tl = 22 \<and> tm = 23 \<and> tp \<le> tl \<and> tl \<le> tm"
    by (intro exI)
  then have "\<exists>tm tl tp. fs w' ''common/temp/last-install.flag'' = Some (File [] tm) \<and>
     fs w' ''common/npm-shrinkwrap.json'' = Some (File ''v2'' tl) \<and>
     fs w' ''common/temp/package.json'' = Some (File ''{}'' tp) \<and>
     tp = 5 \<and> tl = 22 \<and> tm = 23 \<and> tp \<le> tl \<and> tl \<le> tm"
    by (simp only: marker_def committed_def manifest_def exampleInstallManager_def exampleConfiguration_def
        installManager.simps rushConfiguration.simps)
  with timely_linkedRepo f show ?thesis
    unfolding w'_def by (intro conjI)
qed

text \<open>
  C3 as stated fails on a repository whose synthesized manifest is dated in the future and
  is found up to date: after a full run that succeeds, the committed lock file is older
  than the manifest.
\<close>

theorem full_install_stamps_counterexample:
  "fs skewedRepo ''common/temp/package.json'' = Some (File ''{}'' 100) \<and>
   fst (GenerateAction_onExecute exampleConfiguration idleInstallManager exampleCollaborators
          False False skewedRepo) = Returned \<and>
   fs (snd (GenerateAction_onExecute exampleConfiguration idleInstallManager exampleCollaborators
          False False skewedRepo)) ''common/temp/last-install.flag'' = Some (File [] 22) \<and>
   fs (snd (GenerateAction_onExecute exampleConfiguration idleInstallManager exampleCollaborators
          False False skewedRepo)) ''common/npm-shrinkwrap.json'' = Some (File ''v2'' 21) \<and>
   fs (snd (GenerateAction_onExecute exampleConfiguration idleInstallManager exampleCollaborators
          False False skewedRepo)) ''common/temp/package.json'' = Some (File ''{}'' 100)"
  by (simp add: run_defs idleInstallManager_def skewedRepo_def)

section \<open>The command layer\<close>

lemma exitWithError_status: "fst (exitWithError parser w) = Exited 1"
  by (cases "telemetry_flush parser w") (auto simp: exitWithError_def split: option.splits)

lemma exitWithError_world: "snd (exitWithError parser w) = snd (telemetry_flush parser w)"
  by (cases "telemetry_flush parser w") (auto simp: exitWithError_def split: option.splits)

lemma exitAndReportError_status: "fst (exitAndReportError parser e w) = Exited 1"
  by (simp add: exitAndReportError_def exitWithError_status)










text \<open>
  C10: \<^verbatim>\<open>exitWithError\<close> ends the process with exit code 1 whatever the telemetry flush
  does, throwing included; the world it ends in is the one the flush attempt left. So does
  \<^verbatim>\<open>_exitAndReportError\<close>, which ends in it.
\<close>

theorem exitWithError_exits_with_1:
  "fst (exitWithError parser w) = Exited 1 \<and>
   snd (exitWithError parser w) = snd (telemetry_flush parser w) \<and>
   fst (exitAndReportError parser e w) = Exited 1"
  by (simp add: exitWithError_status exitWithError_world exitAndReportError_status)

theorem exitWithError_exits_with_1_witness:
  "fst (telemetry_flush brokenTelemetryParser linkedRepo) = Some (Error ''telemetry is undefined'') \<and>
   fst (exitWithError brokenTelemetryParser linkedRepo) = Exited 1 \<and>
   fst (exitAndReportError brokenTelemetryParser (Error ''boom'') linkedRepo) = Exited 1"
  using exitWithError_exits_with_1 [of brokenTelemetryParser linkedRepo "Error ''boom''"]
  by (simp add: brokenTelemetryParser_def exampleParser_def)

lemma env_purgeProjects: "env (snd (purgeProjects ps d w)) = env w"
  by (induction ps arbitrary: d w) (simp_all add: dangerouslyDeletePath_def)

lemma env_deleteFile [simp]: "env (deleteFile p w) = env w"
  by (simp add: deleteFile_def)

lemma env_unlink: "env (UnlinkAction_onExecute cfg w) = env w"
proof -
  let ?w2 = "deleteFile (rushLinkJsonFilename cfg) (console_log (''Starting \"rush unlink\"'' @ os_EOL) w)"
  obtain d w3 where p: "purgeProjects (projects cfg) False ?w2 = (d, w3)"
    by (cases "purgeProjects (projects cfg) False ?w2")
  have "env w3 = env ?w2"
    using env_purgeProjects [of "projects cfg" False ?w2] p by simp
  then show ?thesis
    using p by (simp add: UnlinkAction_onExecute_def)
qed

text \<open>
  C5, as the code has it: the parser's initialisation does change the environment of the
  process. \<^verbatim>\<open>_ensureEnvironment\<close> sets \<^verbatim>\<open>PATH\<close> to the \<^verbatim>\<open>node_modules/.bin\<close> folder of the
  common temp folder, the path delimiter and the former \<^verbatim>\<open>PATH\<close>; it changes no other
  variable and nothing in the filesystem. The \<^verbatim>\<open>unlink\<close> command changes no variable.
\<close>

theorem ensureEnvironment_prefixes_PATH:
  "env (ensureEnvironment cfg w) ''PATH'' =
     Some (path_join (path_join (commonTempFolder cfg) ''node_modules'') ''.bin'' @ path_delimiter @
           (case env w ''PATH'' of None \<Rightarrow> ''undefined'' | Some v \<Rightarrow> v)) \<and>
   (\<forall>name. name \<noteq> ''PATH'' \<longrightarrow> env (ensureEnvironment cfg w) name = env w name) \<and>
   fs (ensureEnvironment cfg w) = fs w \<and>
   env (UnlinkAction_onExecute cfg w) = env w"
  by (simp add: ensureEnvironment_def Let_def env_unlink)

theorem ensureEnvironment_prefixes_PATH_witness:
  "env (ensureEnvironment exampleConfiguration linkedRepo) ''PATH'' =
     Some ''common/temp/node_modules/.bin:/usr/bin'' \<and>
   env (ensureEnvironment exampleConfiguration linkedRepo) ''HOME'' = Some ''/root'' \<and>
   env (ensureEnvironment exampleConfiguration flagOnlyRepo) ''HOME'' = None"
  using ensureEnvironment_prefixes_PATH [of exampleConfiguration linkedRepo]
    ensureEnvironment_prefixes_PATH [of exampleConfiguration flagOnlyRepo]
  by (simp add: exampleConfiguration_def linkedRepo_def flagOnlyRepo_def path_join_def path_delimiter_def)

text \<open>
  C5 as stated fails at every start of the tool: after \<^verbatim>\<open>_ensureEnvironment\<close> the
  process-wide \<^verbatim>\<open>PATH\<close> is no longer what it was.
\<close>

theorem ensureEnvironment_mutates_counterexample:
  "env linkedRepo ''PATH'' = Some ''/usr/bin'' \<and>
   env (ensureEnvironment exampleConfiguration linkedRepo) ''PATH'' =
     Some ''common/temp/node_modules/.bin:/usr/bin''"
  by (simp add: ensureEnvironment_def exampleConfiguration_def linkedRepo_def path_join_def
      path_delimiter_def)

section \<open>The approved packages rewrite\<close>

lemma set_addCategory [simp]: "set (addCategory c cs) = insert c (set cs)"
  by (induction cs) auto

lemma sorted_addCategory: "sorted_wrt (<) cs \<Longrightarrow> sorted_wrt (<) (addCategory c cs)"
  by (induction cs) auto

lemma addCategory_member: "sorted_wrt (<) cs \<Longrightarrow> c \<in> set cs \<Longrightarrow> addCategory c cs = cs"
  by (induction cs) auto

lemma addCategory_last: "\<forall>d\<in>set cs. d < c \<Longrightarrow> addCategory c cs = cs @ [c]"
  by (induction cs) auto

lemma set_fold_addCategory [simp]: "set (fold addCategory ds cs) = set ds \<union> set cs"
  by (induction ds arbitrary: cs) auto

lemma sorted_fold_addCategory: "sorted_wrt (<) cs \<Longrightarrow> sorted_wrt (<) (fold addCategory ds cs)"
  by (induction ds arbitrary: cs) (auto simp: sorted_addCategory)

lemma fold_addCategory_subset:
  "sorted_wrt (<) cs \<Longrightarrow> set ds \<subseteq> set cs \<Longrightarrow> fold addCategory ds cs = cs"
  by (induction ds arbitrary: cs) (auto simp: addCategory_member)

lemma fold_addCategory_append:
  "sorted_wrt (<) (acc @ cs) \<Longrightarrow> fold addCategory cs acc = acc @ cs"
proof (induction cs arbitrary: acc)
  case Nil
  then show ?case by simp
next
  case (Cons c cs)
  from Cons.prems have "\<forall>d\<in>set acc. d < c" by (auto simp: sorted_wrt_append)
  then have "addCategory c acc = acc @ [c]" by (rule addCategory_last)
  moreover from Cons.prems have "sorted_wrt (<) ((acc @ [c]) @ cs)" by simp
  ultimately show ?case using Cons.IH [of "acc @ [c]"] by simp
qed

lemma fold_addCategory_sorted: "sorted_wrt (<) cs \<Longrightarrow> fold addCategory cs [] = cs"
  using fold_addCategory_append [of "[]" cs] by simp

lemma names_approve: "name ` set (approve n cs ps) = insert n (name ` set ps)"
  by (induction ps) auto

lemma canonical_Nil [simp]: "canonical []"
  by (simp add: canonical_def)

lemma canonical_approve: "canonical ps \<Longrightarrow> canonical (approve n cs ps)"
proof (induction ps)
  case Nil
  then show ?case by (simp add: canonical_def sorted_fold_addCategory)
next
  case (Cons p ps)
  from Cons.prems have tail: "canonical ps" by (simp add: canonical_def)
  have low: "\<forall>q\<in>set (approve n cs ps). name p < name q" if "name p < n"
  proof
    fix q assume "q \<in> set (approve n cs ps)"
    then have "name q \<in> insert n (name ` set ps)"
      using names_approve [of n cs ps] by blast
    with that Cons.prems show "name p < name q" by (auto simp: canonical_def)
  qed
  show ?case
    using Cons.prems Cons.IH [OF tail] low
    by (auto simp: canonical_def sorted_fold_addCategory)
qed

lemma approve_covered: "canonical ps \<Longrightarrow> covers ps n cs \<Longrightarrow> approve n cs ps = ps"
proof (induction ps)
  case Nil
  then show ?case by (simp add: covers_def)
next
  case (Cons p ps)
  show ?case
  proof (cases "n = name p")
    case True
    from Cons.prems have "\<forall>q\<in>set ps. name p < name q" by (auto simp: canonical_def)
    with Cons.prems(2) True have "set cs \<subseteq> set (allowedCategories p)"
      by (auto simp: covers_def list_ex_iff)
    moreover from Cons.prems(1) have "sorted_wrt (<) (allowedCategories p)" by (simp add: canonical_def)
    ultimately have "fold addCategory cs (allowedCategories p) = allowedCategories p"
      by (simp add: fold_addCategory_subset)
    with True show ?thesis by simp
  next
    case False
    with Cons.prems(2) have in_tail: "covers ps n cs" by (auto simp: covers_def)
    then obtain q where "q \<in> set ps" "name q = n" by (auto simp: covers_def list_ex_iff)
    with Cons.prems(1) have "name p < n" by (auto simp: canonical_def)
    moreover from Cons.prems(1) have "canonical ps" by (simp add: canonical_def)
    ultimately show ?thesis using False Cons.IH in_tail by auto
  qed
qed

lemma covers_approve_self: "covers (approve n cs ps) n cs"
  by (induction ps) (auto simp: covers_def)

lemma covers_approve_other: "covers ps m ds \<Longrightarrow> covers (approve n cs ps) m ds"
  by (induction ps) (auto simp: covers_def)

lemma approve_append:
  "\<forall>q\<in>set acc. name q < n \<Longrightarrow>
   approve n cs acc = acc @ [\<lparr>name = n, allowedCategories = fold addCategory cs []\<rparr>]"
  by (induction acc) auto

lemma renormalise_append:
  "canonical (acc @ ps) \<Longrightarrow>
   fold (\<lambda>p. approve (name p) (allowedCategories p)) ps acc = acc @ ps"
proof (induction ps arbitrary: acc)
  case Nil
  then show ?case by simp
next
  case (Cons p ps)
  from Cons.prems have "\<forall>q\<in>set acc. name q < name p"
    by (auto simp: canonical_def sorted_wrt_append)
  then have "approve (name p) (allowedCategories p) acc =
      acc @ [\<lparr>name = name p, allowedCategories = fold addCategory (allowedCategories p) []\<rparr>]"
    by (rule approve_append)
  moreover from Cons.prems have "sorted_wrt (<) (allowedCategories p)"
    by (simp add: canonical_def)
  ultimately have step: "approve (name p) (allowedCategories p) acc = acc @ [p]"
    by (simp add: fold_addCategory_sorted)
  from Cons.prems have "canonical ((acc @ [p]) @ ps)" by simp
  from Cons.IH [OF this] step show ?case by simp
qed

lemma renormalise_canonical:
  "canonical ps \<Longrightarrow> fold (\<lambda>p. approve (name p) (allowedCategories p)) ps [] = ps"
  using renormalise_append [of "[]" ps] by simp

lemma canonical_fold_entries:
  "canonical acc \<Longrightarrow> canonical (fold (\<lambda>p. approve (name p) (allowedCategories p)) ps acc)"
  by (induction ps arbitrary: acc) (auto simp: canonical_approve)

lemma canonical_fold_usage:
  "canonical acc \<Longrightarrow> canonical (fold (\<lambda>(n, c). approve n [c]) us acc)"
  by (induction us arbitrary: acc) (auto simp: canonical_approve)

lemma covers_fold_usage_keeps:
  "covers acc m ds \<Longrightarrow> covers (fold (\<lambda>(n, c). approve n [c]) us acc) m ds"
  by (induction us arbitrary: acc) (auto simp: covers_approve_other)

lemma covers_fold_entries_keeps:
  "covers acc m ds \<Longrightarrow> covers (fold (\<lambda>p. approve (name p) (allowedCategories p)) ps acc) m ds"
  by (induction ps arbitrary: acc) (auto simp: covers_approve_other)

lemma covers_fold_usage:
  "(n, c) \<in> set us \<Longrightarrow> covers (fold (\<lambda>(n, c). approve n [c]) us acc) n [c]"
proof (induction us arbitrary: acc)
  case Nil
  then show ?case by simp
next
  case (Cons u us)
  show ?case
  proof (cases "u = (n, c)")
    case True
    then show ?thesis
      by (simp add: covers_fold_usage_keeps covers_approve_self)
  next
    case False
    with Cons.prems have "(n, c) \<in> set us" by simp
    then show ?thesis using Cons.IH by simp
  qed
qed

lemma covers_fold_entries:
  "p \<in> set ps \<Longrightarrow>
   covers (fold (\<lambda>p. approve (name p) (allowedCategories p)) ps acc) (name p) (allowedCategories p)"
proof (induction ps arbitrary: acc)
  case Nil
  then show ?case by simp
next
  case (Cons q ps)
  show ?case
  proof (cases "q = p")
    case True
    then show ?thesis
      by (simp add: covers_fold_entries_keeps covers_approve_self)
  next
    case False
    with Cons.prems have "p \<in> set ps" by simp
    then show ?thesis using Cons.IH by simp
  qed
qed

lemma fold_usage_covered:
  "canonical ps \<Longrightarrow> \<forall>(n, c)\<in>set us. covers ps n [c] \<Longrightarrow>
   fold (\<lambda>(n, c). approve n [c]) us ps = ps"
  by (induction us) (auto simp: approve_covered)

lemma canonical_rewrite: "canonical (rewrite existingList observed)"
  by (simp add: rewrite_def canonical_fold_usage canonical_fold_entries)

text \<open>
  C7: the rewrite of the approved packages list is idempotent: rewriting its own result
  with the same observed usage gives that result again, entry for entry and category for
  category, hence the same bytes. The result is strictly sorted by name (so no name
  occurs twice), keeps every entry of the existing list with all its categories, and
  approves every observed usage.
\<close>

theorem rewrite_idempotent:
  "rewrite (rewrite existingList observed) observed = rewrite existingList observed \<and>
   sorted_wrt (<) (map name (rewrite existingList observed)) \<and>
   (\<forall>p\<in>set existingList. covers (rewrite existingList observed) (name p) (allowedCategories p)) \<and>
   (\<forall>(n, c)\<in>set observed. covers (rewrite existingList observed) n [c])"
proof -
  let ?L = "rewrite existingList observed"
  have c: "canonical ?L" by (rule canonical_rewrite)
  have used: "\<forall>(n, c)\<in>set observed. covers ?L n [c]"
    by (auto simp: rewrite_def covers_fold_usage)
  have kept: "\<forall>p\<in>set existingList. covers ?L (name p) (allowedCategories p)"
    by (simp add: rewrite_def covers_fold_usage_keeps covers_fold_entries)
  have "rewrite ?L observed = fold (\<lambda>(n, c). approve n [c]) observed ?L"
    unfolding rewrite_def [of ?L] by (simp only: renormalise_canonical [OF c])
  also have "\<dots> = ?L" using c used by (rule fold_usage_covered)
  finally have "rewrite ?L observed = ?L" .
  moreover from c have "sorted_wrt (<) (map name ?L)" by (simp add: canonical_def)
  ultimately show ?thesis using kept used by blast
qed

theorem rewrite_idempotent_witness:
  "rewrite exampleApproved exampleUsage =
     [\<lparr>name = ''argparse'', allowedCategories = [''libraries'', ''tools'']\<rparr>,
      \<lparr>name = ''colors'', allowedCategories = []\<rparr>,
      \<lparr>name = ''lodash'', allowedCategories = [''libraries'', ''prototypes'', ''tools'']\<rparr>] \<and>
   rewrite (rewrite exampleApproved exampleUsage) exampleUsage = rewrite exampleApproved exampleUsage \<and>
   covers (rewrite exampleApproved exampleUsage) ''lodash'' [''tools'', ''libraries''] \<and>
   covers (rewrite exampleApproved exampleUsage) ''argparse'' [''tools'']"
proof -
  have result: "rewrite exampleApproved exampleUsage =
     [\<lparr>name = ''argparse'', allowedCategories = [''libraries'', ''tools'']\<rparr>,
      \<lparr>name = ''colors'', allowedCategories = []\<rparr>,
      \<lparr>name = ''lodash'', allowedCategories = [''libraries'', ''prototypes'', ''tools'']\<rparr>]"
    by (simp add: rewrite_def exampleApproved_def exampleUsage_def less_char_def)
  have listed: "\<lparr>name = ''lodash'', allowedCategories = [''tools'', ''libraries'']\<rparr> \<in> set exampleApproved"
    and used: "(''argparse'', ''tools'') \<in> set exampleUsage"
    by (simp_all add: exampleApproved_def exampleUsage_def)
  from rewrite_idempotent [of exampleApproved exampleUsage] listed used
  have "rewrite (rewrite exampleApproved exampleUsage) exampleUsage = rewrite exampleApproved exampleUsage \<and>
      covers (rewrite exampleApproved exampleUsage) ''lodash'' [''tools'', ''libraries''] \<and>
      covers (rewrite exampleApproved exampleUsage) ''argparse'' [''tools'']"
    by fastforce
  with result show ?thesis by (simp only: simp_thms)
qed

end
